theory Spec2Isabelle
  imports Main "HOL-Library.Sublist"
begin

section \<open>The browser surface the page objects drive\<close>

text \<open>
  The page objects of \<^verbatim>\<open>tests/pages\<close> (\<^verbatim>\<open>BasePage\<close>, \<^verbatim>\<open>LoginPage\<close>,
  \<^verbatim>\<open>DashboardPage\<close>) are asynchronous methods over a browser page. They are embedded as
  functions in a state-and-exception monad over a \<open>page\<close>: the time elapsed in
  milliseconds and the actions issued so far, each with the time it was issued at. The
  application under test is a parameter \<open>A\<close>: what it renders is a function of the
  page, so an application may react to any action at any later time, and the theorems
  below hold for every application unless they name a condition on it.

  Time passes only while an operation polls: a wait looks at the page now and after each
  millisecond until its timeout has elapsed. An action is either refused by the browser
  or takes effect at once, and a read (checked state, text, value) returns what the page
  holds at that moment. A rejected promise is a result \<open>Inl e\<close>, a fulfilled one
  \<open>Inr x\<close>, so that every \<^verbatim>\<open>throw\<close> and every \<^verbatim>\<open>catch\<close> of the source is a branch.
\<close>

text \<open>\<^verbatim>\<open>page.getByTestId(id)\<close> and \<^verbatim>\<open>page.locator(selector)\<close>.\<close>

datatype locator = ByTestId string | BySelector string

text \<open>The selector text \<^verbatim>\<open>[data-testid="id"]\<close> (the character 0x22 is the double quote).\<close>

definition testIdSelector :: "string \<Rightarrow> string" where
  "testIdSelector tid = ''[data-testid='' @ [CHR 0x22] @ tid @ [CHR 0x22] @ '']''"

text \<open>The states \<^verbatim>\<open>locator.waitFor\<close> is asked for, and the load states of a document.\<close>

datatype elementState = Visible | Hidden

datatype loadState = Load | DomContentLoaded | NetworkIdle

text \<open>The actions a page object issues to the page.\<close>

datatype action = Goto string | Click locator | Fill locator string | Clear locator

record page =
  clock :: nat
  history :: "(nat \<times> action) list"

text \<open>
  The application under test, seen through the browser: what is rendered on a page, and
  which actions the browser refuses on it.
\<close>

record app =
  visibleIn :: "page \<Rightarrow> locator \<Rightarrow> bool"
  checkedIn :: "page \<Rightarrow> locator \<Rightarrow> bool"
  textIn :: "page \<Rightarrow> locator \<Rightarrow> string option"
  valueIn :: "page \<Rightarrow> locator \<Rightarrow> string"
  pathnameIn :: "page \<Rightarrow> string"
  firedIn :: "page \<Rightarrow> loadState \<Rightarrow> bool"
  rejects :: "page \<Rightarrow> action \<Rightarrow> bool"

text \<open>What a rejected promise carries.\<close>

datatype error = TimeoutError | AssertionError | ActionError

type_synonym 'a io = "page \<Rightarrow> (error + 'a) \<times> page"

definition resolve :: "'a \<Rightarrow> 'a io" where
  "resolve x s = (Inr x, s)"

definition throw :: "error \<Rightarrow> 'a io" where
  "throw e s = (Inl e, s)"

text \<open>\<^verbatim>\<open>const x = await m; f(x)\<close>: a rejection of \<open>m\<close> skips \<open>f\<close>.\<close>

definition await :: "'a io \<Rightarrow> ('a \<Rightarrow> 'b io) \<Rightarrow> 'b io" where
  "await m f s = (case m s of (Inl e, s') \<Rightarrow> (Inl e, s') | (Inr x, s') \<Rightarrow> f x s')"

text \<open>\<^verbatim>\<open>try { m } catch { h }\<close>: the handler runs on the page as the failure left it.\<close>

definition tryCatch :: "'a io \<Rightarrow> 'a io \<Rightarrow> 'a io" where
  "tryCatch m h s = (case m s of (Inl e, s') \<Rightarrow> h s' | (Inr x, s') \<Rightarrow> (Inr x, s'))"

subsection \<open>The automation library\<close>

text \<open>The page \<open>k\<close> milliseconds later, and one millisecond later.\<close>

definition later :: "nat \<Rightarrow> page \<Rightarrow> page" where
  "later k s = s\<lparr>clock := clock s + k\<rparr>"

definition tick :: "page \<Rightarrow> page" where
  "tick s = later 1 s"

text \<open>
  Modelled from the spec: the function-polling primitive of the external automation
  library (section 6: it "evaluates a predicate against live document state until it
  returns true or a timeout elapses"). The predicate is looked at now and after each
  millisecond, \<open>timeout\<close> milliseconds at most; the result tells whether it held, and
  the page is the one it was last looked at on.
\<close>

fun poll :: "(page \<Rightarrow> bool) \<Rightarrow> nat \<Rightarrow> page \<Rightarrow> bool \<times> page" where
  "poll P 0 s = (P s, s)"
| "poll P (Suc n) s = (if P s then (True, s) else poll P n (tick s))"

text \<open>
  Modelled from the spec: \<^verbatim>\<open>locator.waitFor({ state, timeout })\<close> (section 4.1,
  \<^verbatim>\<open>waitVisible\<close> and \<^verbatim>\<open>waitHidden\<close>: blocks until the element is in the state or
  the timeout elapses, and fails on timeout).
\<close>

definition waitFor :: "app \<Rightarrow> locator \<Rightarrow> elementState \<Rightarrow> nat \<Rightarrow> unit io" where
  "waitFor A l st timeout s =
     (case poll (\<lambda>p. visibleIn A p l = (st = Visible)) timeout s of
        (True, s') \<Rightarrow> (Inr (), s')
      | (False, s') \<Rightarrow> (Inl TimeoutError, s'))"

text \<open>
  Modelled from the spec: an action on the page (section 6: navigate, click, fill,
  clear). The browser either refuses it (section 7, \<^verbatim>\<open>InteractionFailure\<close>) or performs
  it, and the application sees it from then on.
\<close>

definition performed :: "action \<Rightarrow> page \<Rightarrow> page" where
  "performed a s = s\<lparr>history := history s @ [(clock s, a)]\<rparr>"

text \<open>The actions issued so far, without their times.\<close>

definition actionsOf :: "page \<Rightarrow> action list" where
  "actionsOf s = map snd (history s)"

definition perform :: "app \<Rightarrow> action \<Rightarrow> unit io" where
  "perform A a s = (if rejects A s a then (Inl ActionError, s) else (Inr (), performed a s))"

definition click :: "app \<Rightarrow> locator \<Rightarrow> unit io" where
  "click A l = perform A (Click l)"

definition fill :: "app \<Rightarrow> locator \<Rightarrow> string \<Rightarrow> unit io" where
  "fill A l t = perform A (Fill l t)"

definition clear :: "app \<Rightarrow> locator \<Rightarrow> unit io" where
  "clear A l = perform A (Clear l)"

text \<open>
  Modelled from the spec: the reads of section 6 (checked state, text, and the value of
  an input), each of what the page holds now.
\<close>

definition isChecked :: "app \<Rightarrow> locator \<Rightarrow> bool io" where
  "isChecked A l s = (Inr (checkedIn A s l), s)"


definition inputValue :: "app \<Rightarrow> locator \<Rightarrow> string io" where
  "inputValue A l s = (Inr (valueIn A s l), s)"

text \<open>
  Modelled from the spec: \<^verbatim>\<open>page.waitForLoadState(state, { timeout })\<close> and
  \<^verbatim>\<open>page.goto(url, { waitUntil, timeout })\<close> (section 6: navigate(url, waitCondition,
  timeout)).
\<close>

definition waitForLoadState :: "app \<Rightarrow> loadState \<Rightarrow> nat \<Rightarrow> unit io" where
  "waitForLoadState A st timeout s =
     (case poll (\<lambda>p. firedIn A p st) timeout s of
        (True, s') \<Rightarrow> (Inr (), s')
      | (False, s') \<Rightarrow> (Inl TimeoutError, s'))"

definition goto :: "app \<Rightarrow> string \<Rightarrow> loadState \<Rightarrow> nat \<Rightarrow> unit io" where
  "goto A url waitUntil timeout =
     await (perform A (Goto url)) (\<lambda>_. waitForLoadState A waitUntil timeout)"

text \<open>
  Modelled from the spec: \<^verbatim>\<open>page.waitForFunction(fn, arg, { timeout })\<close>, the polling
  primitive applied to a function of the live document and an argument.
\<close>

definition waitForFunction :: "(page \<Rightarrow> 'a \<Rightarrow> bool) \<Rightarrow> 'a \<Rightarrow> nat \<Rightarrow> unit io" where
  "waitForFunction f arg timeout s =
     (case poll (\<lambda>p. f p arg) timeout s of
        (True, s') \<Rightarrow> (Inr (), s')
      | (False, s') \<Rightarrow> (Inl TimeoutError, s'))"

text \<open>\<^verbatim>\<open>String.prototype.includes\<close>: \<open>sub\<close> occurs in \<open>str\<close> as a contiguous run.\<close>

fun stringIncludes :: "string \<Rightarrow> string \<Rightarrow> bool" where
  "stringIncludes [] sub = (sub = [])"
| "stringIncludes (c # cs) sub = (prefix sub (c # cs) \<or> stringIncludes cs sub)"

text \<open>
  Modelled from the spec: the assertions of the external test runner (section 7,
  \<^verbatim>\<open>AssertionMismatch\<close> and \<^verbatim>\<open>NotFoundTimeout\<close>; section 4.3, "with a bounded wait
  (10 s) before failing"). \<^verbatim>\<open>expect(locator).toBeVisible()\<close> retries for the
  \<^verbatim>\<open>expect: { timeout: 10 * 1000 }\<close> of the configuration; \<^verbatim>\<open>expect(v).toBe(w)\<close> and
  \<^verbatim>\<open>expect(s).toContain(t)\<close> look once.
\<close>

definition EXPECT_TIMEOUT :: nat where
  "EXPECT_TIMEOUT = 10 * 1000"

definition expectToBeVisible :: "app \<Rightarrow> locator \<Rightarrow> unit io" where
  "expectToBeVisible A l s =
     (case poll (\<lambda>p. visibleIn A p l) EXPECT_TIMEOUT s of
        (True, s') \<Rightarrow> (Inr (), s')
      | (False, s') \<Rightarrow> (Inl AssertionError, s'))"

definition expectToBe :: "'a \<Rightarrow> 'a \<Rightarrow> unit io" where
  "expectToBe actual expected = (if actual = expected then resolve () else throw AssertionError)"


section \<open>Constants\<close>

text \<open>\<^verbatim>\<open>TIMEOUTS\<close>, \<^verbatim>\<open>ERROR_MESSAGES\<close>, \<^verbatim>\<open>TEST_IDS\<close> and \<^verbatim>\<open>URLs\<close>.\<close>

definition TIMEOUTS_SHORT :: nat where
  "TIMEOUTS_SHORT = 5000"

definition TIMEOUTS_MEDIUM :: nat where
  "TIMEOUTS_MEDIUM = 10000"


definition URLs_LOGIN :: string where
  "URLs_LOGIN = ''/login''"

definition URLs_DASHBOARD :: string where
  "URLs_DASHBOARD = ''/dashboard''"

text \<open>\<^verbatim>\<open>BASE_URL: process.env.BASE_URL || 'https://example.com'\<close>.\<close>

definition URLs_BASE_URL :: "string option \<Rightarrow> string" where
  "URLs_BASE_URL env =
     (case env of None \<Rightarrow> ''https://example.com''
      | Some v \<Rightarrow> if v = [] then ''https://example.com'' else v)"

section \<open>BasePage\<close>

text \<open>A timeout a caller leaves out is the default of the signature, written at the call.\<close>

definition waitForPageLoad :: "app \<Rightarrow> nat \<Rightarrow> unit io" where
  "waitForPageLoad A timeout =
     await (waitForLoadState A NetworkIdle timeout)
       (\<lambda>_. waitForLoadState A DomContentLoaded timeout)"

definition waitForElement :: "app \<Rightarrow> locator \<Rightarrow> nat \<Rightarrow> unit io" where
  "waitForElement A l timeout = waitFor A l Visible timeout"

definition waitForElementToBeHidden :: "app \<Rightarrow> locator \<Rightarrow> nat \<Rightarrow> unit io" where
  "waitForElementToBeHidden A l timeout = waitFor A l Hidden timeout"

definition isElementVisible :: "app \<Rightarrow> locator \<Rightarrow> bool io" where
  "isElementVisible A l =
     tryCatch (await (waitFor A l Visible 1000) (\<lambda>_. resolve True)) (resolve False)"

definition clickElement :: "app \<Rightarrow> locator \<Rightarrow> nat \<Rightarrow> unit io" where
  "clickElement A l timeout = await (waitForElement A l timeout) (\<lambda>_. click A l)"

definition fillInput :: "app \<Rightarrow> locator \<Rightarrow> string \<Rightarrow> nat \<Rightarrow> unit io" where
  "fillInput A l t timeout =
     await (waitForElement A l timeout) (\<lambda>_. await (clear A l) (\<lambda>_. fill A l t))"


definition isElementChecked :: "app \<Rightarrow> locator \<Rightarrow> bool io" where
  "isElementChecked A l = await (waitForElement A l 10000) (\<lambda>_. isChecked A l)"

definition navigateToUrl :: "app \<Rightarrow> string \<Rightarrow> nat \<Rightarrow> unit io" where
  "navigateToUrl A url timeout = goto A url NetworkIdle timeout"

section \<open>LoginPage\<close>

record userCredentials =
  email :: string
  password :: string
  rememberMe :: "bool option"

definition loginForm :: locator where
  "loginForm = ByTestId ''login-form''"

definition emailInput :: locator where
  "emailInput = ByTestId ''email-input''"

definition passwordInput :: locator where
  "passwordInput = ByTestId ''password-input''"

definition loginButton :: locator where
  "loginButton = ByTestId ''login-button''"

definition rememberMeCheckbox :: locator where
  "rememberMeCheckbox = ByTestId ''remember-me-checkbox''"

definition errorMessage :: locator where
  "errorMessage = ByTestId ''error-message''"

definition loadingSpinner :: locator where
  "loadingSpinner = ByTestId ''loading-spinner''"

definition validateLoginFormIsVisible :: "app \<Rightarrow> unit io" where
  "validateLoginFormIsVisible A =
     await (waitForElement A loginForm 10000)
       (\<lambda>_. await (expectToBeVisible A loginForm)
          (\<lambda>_. await (expectToBeVisible A emailInput)
             (\<lambda>_. await (expectToBeVisible A passwordInput)
                (\<lambda>_. expectToBeVisible A loginButton))))"

text \<open>
  \<^verbatim>\<open>navigateToLogin(baseUrl?)\<close>: \<open>env\<close> is the environment's \<^verbatim>\<open>BASE_URL\<close>; an
  absent or empty \<open>baseUrl\<close> falls back to it.
\<close>

definition navigateToLogin :: "app \<Rightarrow> string option \<Rightarrow> string option \<Rightarrow> unit io" where
  "navigateToLogin A env baseUrl =
     (let url = (case baseUrl of None \<Rightarrow> URLs_BASE_URL env
                 | Some b \<Rightarrow> if b = [] then URLs_BASE_URL env else b) @ URLs_LOGIN
      in await (navigateToUrl A url 30000)
           (\<lambda>_. await (waitForPageLoad A 30000) (\<lambda>_. validateLoginFormIsVisible A)))"

definition enterEmail :: "app \<Rightarrow> string \<Rightarrow> unit io" where
  "enterEmail A e = fillInput A emailInput e 10000"

definition enterPassword :: "app \<Rightarrow> string \<Rightarrow> unit io" where
  "enterPassword A pw = fillInput A passwordInput pw 10000"

definition clickLoginButton :: "app \<Rightarrow> unit io" where
  "clickLoginButton A = clickElement A loginButton 10000"

definition setRememberMe :: "app \<Rightarrow> bool \<Rightarrow> unit io" where
  "setRememberMe A checked =
     await (isElementChecked A rememberMeCheckbox)
       (\<lambda>isCurrentlyChecked.
          if isCurrentlyChecked \<noteq> checked then clickElement A rememberMeCheckbox 10000
          else resolve ())"

text \<open>\<^verbatim>\<open>if (credentials.rememberMe)\<close>: an absent flag is falsy.\<close>

definition login :: "app \<Rightarrow> userCredentials \<Rightarrow> unit io" where
  "login A credentials =
     await (enterEmail A (email credentials))
       (\<lambda>_. await (enterPassword A (password credentials))
          (\<lambda>_. await (if rememberMe credentials = Some True then setRememberMe A True
                        else resolve ())
             (\<lambda>_. clickLoginButton A)))"

definition clearForm :: "app \<Rightarrow> unit io" where
  "clearForm A =
     await (clear A emailInput)
       (\<lambda>_. await (clear A passwordInput)
          (\<lambda>_. await (isElementChecked A rememberMeCheckbox)
             (\<lambda>isChecked. if isChecked then setRememberMe A False else resolve ())))"


definition waitForLoadingToComplete :: "app \<Rightarrow> unit io" where
  "waitForLoadingToComplete A =
     tryCatch
       (await (waitForElement A loadingSpinner TIMEOUTS_SHORT)
          (\<lambda>_. waitForElementToBeHidden A loadingSpinner TIMEOUTS_MEDIUM))
       (resolve ())"

definition getEmailValue :: "app \<Rightarrow> string io" where
  "getEmailValue A = inputValue A emailInput"

definition getPasswordValue :: "app \<Rightarrow> string io" where
  "getPasswordValue A = inputValue A passwordInput"

definition isRememberMeChecked :: "app \<Rightarrow> bool io" where
  "isRememberMeChecked A = isElementChecked A rememberMeCheckbox"

text \<open>
  The function handed to \<^verbatim>\<open>page.waitForFunction\<close> by \<^verbatim>\<open>attemptLogin\<close> and
  \<^verbatim>\<open>logout\<close>: \<^verbatim>\<open>(path) => !window.location.pathname.includes(path)\<close>.
\<close>

definition pathnameExcludes :: "app \<Rightarrow> page \<Rightarrow> string \<Rightarrow> bool" where
  "pathnameExcludes A p path = (\<not> stringIncludes (pathnameIn A p) path)"


section \<open>DashboardPage\<close>

definition logoutButton :: locator where
  "logoutButton = ByTestId ''logout-button''"

definition profileDropdown :: locator where
  "profileDropdown = BySelector (testIdSelector ''profile-dropdown'')"

definition adminPanel :: locator where
  "adminPanel = BySelector (testIdSelector ''admin-panel'')"

definition userManagementLink :: locator where
  "userManagementLink = BySelector (testIdSelector ''user-management-link'')"

definition openProfileDropdown :: "app \<Rightarrow> unit io" where
  "openProfileDropdown A =
     await (clickElement A profileDropdown 10000)
       (\<lambda>_. waitForElement A logoutButton TIMEOUTS_SHORT)"

definition clickLogout :: "app \<Rightarrow> unit io" where
  "clickLogout A =
     await (isElementVisible A logoutButton)
       (\<lambda>isLogoutVisible.
          await (if \<not> isLogoutVisible then openProfileDropdown A else resolve ())
            (\<lambda>_. clickElement A logoutButton 10000))"

definition logout :: "app \<Rightarrow> unit io" where
  "logout A =
     await (clickLogout A)
       (\<lambda>_. waitForFunction (pathnameExcludes A) URLs_DASHBOARD TIMEOUTS_MEDIUM)"

definition validateAdminElements :: "app \<Rightarrow> unit io" where
  "validateAdminElements A =
     await (isElementVisible A adminPanel)
       (\<lambda>panelVisible.
          await (if panelVisible then expectToBeVisible A adminPanel else resolve ())
            (\<lambda>_. await (isElementVisible A userManagementLink)
               (\<lambda>linkVisible.
                  if linkVisible then expectToBeVisible A userManagementLink
                  else resolve ())))"

definition validateStandardUserElements :: "app \<Rightarrow> unit io" where
  "validateStandardUserElements A =
     await (isElementVisible A adminPanel)
       (\<lambda>isAdminPanelVisible.
          await (isElementVisible A userManagementLink)
            (\<lambda>isUserManagementVisible.
               await (expectToBe isAdminPanelVisible False)
                 (\<lambda>_. expectToBe isUserManagementVisible False)))"

section \<open>The moment a wait returns\<close>

text \<open>
  \<open>appearsAt A l timeout s k\<close>: a wait for \<open>l\<close> to be visible, started on the page \<open>s\<close>
  with the given timeout, returns after \<open>k\<close> milliseconds: \<open>k\<close> is the first moment at
  which \<open>l\<close> is visible, and it is within the timeout.
\<close>

definition appearsAt :: "app \<Rightarrow> locator \<Rightarrow> nat \<Rightarrow> page \<Rightarrow> nat \<Rightarrow> bool" where
  "appearsAt A l timeout s k \<longleftrightarrow>
     k \<le> timeout \<and> visibleIn A (later k s) l \<and> (\<forall>j<k. \<not> visibleIn A (later j s) l)"

section \<open>The actions an operation issues\<close>

text \<open>
  \<open>issues m Fs\<close>: every run of \<open>m\<close> adds to the actions issued so far a prefix of one of
  the sequences in \<open>Fs\<close>, and the whole sequence when it returns normally.
\<close>

definition issues :: "'a io \<Rightarrow> action list set \<Rightarrow> bool" where
  "issues m Fs \<longleftrightarrow>
     (\<forall>s r s'. m s = (r, s') \<longrightarrow>
        (\<exists>F\<in>Fs. \<exists>acts. actionsOf s' = actionsOf s @ acts \<and> prefix acts F \<and>
           (\<not> isl r \<longrightarrow> acts = F)))"

section \<open>Sample pages and applications\<close>

text \<open>
  Concrete inputs on which the theorems below are exercised: a fresh page, an application
  that renders nothing, and variations of it.
\<close>

definition startPage :: page where
  "startPage = \<lparr>clock = 0, history = []\<rparr>"

definition blankApp :: app where
  "blankApp =
     \<lparr>visibleIn = (\<lambda>p l. False), checkedIn = (\<lambda>p l. False), textIn = (\<lambda>p l. None),
      valueIn = (\<lambda>p l. []), pathnameIn = (\<lambda>p. ''/''), firedIn = (\<lambda>p st. False),
      rejects = (\<lambda>p a. False)\<rparr>"

definition lateAdminApp :: app where
  "lateAdminApp = blankApp\<lparr>visibleIn := (\<lambda>p l. l = adminPanel \<and> 3 \<le> clock p)\<rparr>"

text \<open>A spinner that never goes away, and a document whose content never finishes loading.\<close>

definition stuckSpinnerApp :: app where
  "stuckSpinnerApp = blankApp\<lparr>visibleIn := (\<lambda>p l. l = loadingSpinner)\<rparr>"

definition idleOnlyApp :: app where
  "idleOnlyApp = blankApp\<lparr>firedIn := (\<lambda>p st. st = NetworkIdle)\<rparr>"

text \<open>An application that renders every element at once and has loaded.\<close>

definition readyApp :: app where
  "readyApp = blankApp\<lparr>visibleIn := (\<lambda>p l. True), firedIn := (\<lambda>p st. True)\<rparr>"

text \<open>
  An application with the login form. The form and its controls are always rendered, the
  remember-me checkbox is checked after an odd number of clicks on it, and an input holds
  what was last filled into it. Once the login button has been clicked, the application
  either leaves the login path (\<open>accept\<close>) or shows the invalid-credentials banner.
\<close>

definition clicksOn :: "locator \<Rightarrow> page \<Rightarrow> nat" where
  "clicksOn l p = length (filter (\<lambda>a. a = Click l) (actionsOf p))"

fun lastInput :: "locator \<Rightarrow> action list \<Rightarrow> string" where
  "lastInput l [] = []"
| "lastInput l (Fill l' t # as) = (if l' = l then t else lastInput l as)"
| "lastInput l (Clear l' # as) = (if l' = l then [] else lastInput l as)"
| "lastInput l (a # as) = lastInput l as"

definition loginFormApp :: "bool \<Rightarrow> app" where
  "loginFormApp accept =
     \<lparr>visibleIn = (\<lambda>p l. l = loginForm \<or> l = emailInput \<or> l = passwordInput \<or>
         l = loginButton \<or> l = rememberMeCheckbox \<or>
         (l = errorMessage \<and> \<not> accept \<and> 0 < clicksOn loginButton p)),
      checkedIn = (\<lambda>p l. l = rememberMeCheckbox \<and> odd (clicksOn rememberMeCheckbox p)),
      textIn = (\<lambda>p l. if l = errorMessage then Some ''Invalid email or password'' else None),
      valueIn = (\<lambda>p l. lastInput l (rev (actionsOf p))),
      pathnameIn = (\<lambda>p. if accept \<and> 0 < clicksOn loginButton p then ''/dashboard''
                         else ''/login''),
      firedIn = (\<lambda>p st. True),
      rejects = (\<lambda>p a. False)\<rparr>"

text \<open>
  An application on its dashboard. The profile dropdown is always rendered; the logout
  button is rendered at once (\<open>direct\<close>) or once the dropdown has been clicked. A click on
  the logout button leads to the login path.
\<close>

definition dashboardApp :: "bool \<Rightarrow> app" where
  "dashboardApp direct =
     blankApp
       \<lparr>visibleIn := (\<lambda>p l. l = profileDropdown \<or>
           (l = logoutButton \<and> (direct \<or> 0 < clicksOn profileDropdown p))),
        pathnameIn := (\<lambda>p. if 0 < clicksOn logoutButton p then ''/login'' else ''/dashboard'')\<rparr>"

text \<open>The credentials of \<^verbatim>\<open>VALID_USERS.STANDARD_USER\<close>, without and with remember-me.\<close>

definition standardUser :: userCredentials where
  "standardUser =
     \<lparr>email = ''test@example.com'', password = ''ValidPassword123!'', rememberMe = None\<rparr>"

definition rememberedUser :: userCredentials where
  "rememberedUser = standardUser\<lparr>rememberMe := Some True\<rparr>"

section \<open>Facts about polling\<close>

lemma later_0 [simp]: "later 0 s = s"
  by (simp add: later_def)

lemma later_later [simp]: "later j (later k s) = later (k + j) s"
  by (simp add: later_def add.assoc)

lemma clock_later [simp]: "clock (later k s) = clock s + k"
  by (simp add: later_def)

lemma history_later [simp]: "history (later k s) = history s"
  by (simp add: later_def)

text \<open>\<open>stringIncludes\<close> is the contiguous-sublist relation of the library.\<close>

lemma stringIncludes_sublist: "stringIncludes str sub \<longleftrightarrow> sublist sub str"
  by (induction str) (simp_all add: sublist_Cons_right)

text \<open>
  What a poll returns: the first of the moments \<open>0, ..., n\<close> at which the predicate
  holds, or the last moment when it holds at none.
\<close>

lemma poll_result:
  "\<exists>k\<le>n. poll P n s = (P (later k s), later k s) \<and> (\<forall>j<k. \<not> P (later j s)) \<and>
     (\<not> P (later k s) \<longrightarrow> k = n)"
proof (induction n arbitrary: s)
  case 0
  show ?case by simp
next
  case (Suc n)
  show ?case
  proof (cases "P s")
    case True
    then have "poll P (Suc n) s = (P (later 0 s), later 0 s)" by simp
    with True show ?thesis by (intro exI [of _ 0]) simp
  next
    case False
    from Suc.IH [of "tick s"] obtain k where k: "k \<le> n"
      "poll P n (tick s) = (P (later k (tick s)), later k (tick s))"
      "\<forall>j<k. \<not> P (later j (tick s))" "\<not> P (later k (tick s)) \<longrightarrow> k = n"
      by blast
    have shift: "later j (tick s) = later (Suc j) s" for j
      by (simp add: tick_def)
    have "\<forall>j<Suc k. \<not> P (later j s)"
    proof (intro allI impI)
      fix j assume "j < Suc k"
      show "\<not> P (later j s)"
      proof (cases j)
        case 0
        with False show ?thesis by simp
      next
        case (Suc i)
        with \<open>j < Suc k\<close> k(3) shift show ?thesis by auto
      qed
    qed
    with False k shift show ?thesis
      by (intro exI [of _ "Suc k"]) simp
  qed
qed

lemma poll_now: "P s \<Longrightarrow> poll P n s = (True, s)"
  by (cases n) simp_all

lemma poll_first:
  assumes "k \<le> n" and "P (later k s)" and "\<And>j. j < k \<Longrightarrow> \<not> P (later j s)"
  shows "poll P n s = (True, later k s)"
proof -
  from poll_result [of n P s] obtain i where i: "i \<le> n"
    "poll P n s = (P (later i s), later i s)" "\<forall>j<i. \<not> P (later j s)"
    "\<not> P (later i s) \<longrightarrow> i = n"
    by blast
  have "i = k"
  proof (rule ccontr)
    assume "i \<noteq> k"
    then consider "i < k" | "k < i" by linarith
    then show False
    proof cases
      case 1
      with assms(3) have "\<not> P (later i s)" by simp
      with i(4) have "i = n" by simp
      with 1 assms(1) show False by simp
    next
      case 2
      with i(3) assms(2) show False by simp
    qed
  qed
  with i(2) assms(2) show ?thesis by simp
qed

lemma poll_never:
  assumes "\<And>k. k \<le> n \<Longrightarrow> \<not> P (later k s)"
  shows "poll P n s = (False, later n s)"
proof -
  from poll_result [of n P s] obtain i where i: "i \<le> n"
    "poll P n s = (P (later i s), later i s)" "\<not> P (later i s) \<longrightarrow> i = n"
    by blast
  from assms i(1) have "\<not> P (later i s)" by simp
  with i show ?thesis by simp
qed

section \<open>Facts about the monad and the waits\<close>

lemma poll_cases [case_names found never]:
  obtains (found) k where "k \<le> n" "poll P n s = (True, later k s)" "P (later k s)"
      "\<forall>j<k. \<not> P (later j s)"
  | (never) "poll P n s = (False, later n s)" "\<forall>j\<le>n. \<not> P (later j s)"
proof -
  from poll_result [of n P s] obtain i where i: "i \<le> n"
    "poll P n s = (P (later i s), later i s)" "\<forall>j<i. \<not> P (later j s)"
    "\<not> P (later i s) \<longrightarrow> i = n"
    by blast
  show thesis
  proof (cases "P (later i s)")
    case True
    with i(2) have eq: "poll P n s = (True, later i s)" by simp
    show thesis by (rule found [OF i(1) eq True i(3)])
  next
    case False
    with i(4) have "i = n" by simp
    have none: "\<forall>j\<le>n. \<not> P (later j s)"
    proof (intro allI impI)
      fix j assume "j \<le> n"
      then consider "j < i" | "j = i" using \<open>i = n\<close> by linarith
      then show "\<not> P (later j s)" using i(3) False by cases simp_all
    qed
    from False i(2) \<open>i = n\<close> have eq: "poll P n s = (False, later n s)" by simp
    show thesis by (rule never [OF eq none])
  qed
qed

lemma await_Inr: "m s = (Inr x, s1) \<Longrightarrow> await m f s = f x s1"
  by (simp add: await_def)

lemma await_Inl: "m s = (Inl e, s1) \<Longrightarrow> await m f s = (Inl e, s1)"
  by (simp add: await_def)

lemma await_returns:
  assumes "await m f s = (Inr y, s')"
  obtains x s1 where "m s = (Inr x, s1)" "f x s1 = (Inr y, s')"
proof (cases "m s")
  case (Pair r s1)
  show thesis
  proof (cases r)
    case (Inl e)
    with Pair assms show thesis by (simp add: await_def)
  next
    case (Inr x)
    with Pair assms have "f x s1 = (Inr y, s')" by (simp add: await_def)
    with Pair Inr show thesis by (intro that [of x s1]) simp_all
  qed
qed

lemma waitFor_cases [case_names found timeout]:
  obtains (found) k where "k \<le> n" "waitFor A l st n s = (Inr (), later k s)"
      "visibleIn A (later k s) l = (st = Visible)"
      "\<forall>j<k. visibleIn A (later j s) l \<noteq> (st = Visible)"
  | (timeout) "waitFor A l st n s = (Inl TimeoutError, later n s)"
      "\<forall>j\<le>n. visibleIn A (later j s) l \<noteq> (st = Visible)"
proof (cases rule: poll_cases [of n "\<lambda>p. visibleIn A p l = (st = Visible)" s])
  case (found k)
  from found(2) have "waitFor A l st n s = (Inr (), later k s)"
    by (simp add: waitFor_def)
  then show thesis using found(1,3,4) that(1) by blast
next
  case never
  from never(1) have "waitFor A l st n s = (Inl TimeoutError, later n s)"
    by (simp add: waitFor_def)
  then show thesis using never(2) that(2) by blast
qed

lemma isElementVisible_found:
  assumes "waitFor A l Visible 1000 s = (Inr (), s1)"
  shows "isElementVisible A l s = (Inr True, s1)"
  using assms by (simp add: isElementVisible_def tryCatch_def await_def resolve_def)

lemma isElementVisible_timeout:
  assumes "waitFor A l Visible 1000 s = (Inl e, s1)"
  shows "isElementVisible A l s = (Inr False, s1)"
  using assms by (simp add: isElementVisible_def tryCatch_def await_def resolve_def)

lemma isElementVisible_cases [case_names seen unseen]:
  obtains (seen) k where "k \<le> 1000" "isElementVisible A l s = (Inr True, later k s)"
      "visibleIn A (later k s) l" "\<forall>j<k. \<not> visibleIn A (later j s) l"
  | (unseen) "isElementVisible A l s = (Inr False, later 1000 s)"
      "\<forall>j\<le>1000. \<not> visibleIn A (later j s) l"
proof (cases rule: waitFor_cases [of 1000 A l Visible s])
  case (found k)
  from found(2) have "isElementVisible A l s = (Inr True, later k s)"
    by (rule isElementVisible_found)
  then show thesis using found(1,3,4) that(1) by simp
next
  case timeout
  from timeout(1) have "isElementVisible A l s = (Inr False, later 1000 s)"
    by (rule isElementVisible_timeout)
  then show thesis using timeout(2) that(2) by simp
qed


lemma clock_performed [simp]: "clock (performed a s) = clock s"
  by (simp add: performed_def)

lemma history_performed [simp]: "history (performed a s) = history s @ [(clock s, a)]"
  by (simp add: performed_def)

lemma tryCatch_Inl: "m s = (Inl e, s1) \<Longrightarrow> tryCatch m h s = h s1"
  by (simp add: tryCatch_def)

lemma waitFor_first:
  assumes "k \<le> n" and "visibleIn A (later k s) l = (st = Visible)"
    and "\<And>j. j < k \<Longrightarrow> visibleIn A (later j s) l \<noteq> (st = Visible)"
  shows "waitFor A l st n s = (Inr (), later k s)"
proof -
  have "poll (\<lambda>p. visibleIn A p l = (st = Visible)) n s = (True, later k s)"
    using assms by (intro poll_first) simp_all
  then show ?thesis by (simp add: waitFor_def)
qed

lemma waitFor_now:
  assumes "visibleIn A s l = (st = Visible)"
  shows "waitFor A l st n s = (Inr (), s)"
  using waitFor_first [of 0 n A s l st] assms by simp

lemma waitFor_never:
  assumes "\<And>j. j \<le> n \<Longrightarrow> visibleIn A (later j s) l \<noteq> (st = Visible)"
  shows "waitFor A l st n s = (Inl TimeoutError, later n s)"
proof -
  have "poll (\<lambda>p. visibleIn A p l = (st = Visible)) n s = (False, later n s)"
    using assms by (intro poll_never) simp_all
  then show ?thesis by (simp add: waitFor_def)
qed

lemma isElementVisible_first:
  assumes "k \<le> 1000" and "visibleIn A (later k s) l"
    and "\<And>j. j < k \<Longrightarrow> \<not> visibleIn A (later j s) l"
  shows "isElementVisible A l s = (Inr True, later k s)"
proof -
  have "waitFor A l Visible 1000 s = (Inr (), later k s)"
    using assms by (intro waitFor_first) simp_all
  then show ?thesis by (rule isElementVisible_found)
qed

lemma isElementVisible_never:
  assumes "\<And>j. j \<le> 1000 \<Longrightarrow> \<not> visibleIn A (later j s) l"
  shows "isElementVisible A l s = (Inr False, later 1000 s)"
proof -
  have "waitFor A l Visible 1000 s = (Inl TimeoutError, later 1000 s)"
    using assms by (intro waitFor_never) simp_all
  then show ?thesis by (rule isElementVisible_timeout)
qed

lemma expectToBeVisible_now:
  assumes "visibleIn A s l"
  shows "expectToBeVisible A l s = (Inr (), s)"
proof -
  from assms have "poll (\<lambda>p. visibleIn A p l) EXPECT_TIMEOUT s = (True, s)"
    by (intro poll_now)
  then show ?thesis by (simp add: expectToBeVisible_def)
qed

lemma expectToBe_False: "expectToBe v False s = (if v then Inl AssertionError else Inr (), s)"
  by (simp add: expectToBe_def resolve_def throw_def)

lemma isElementVisible_probe:
  obtains v k where "k \<le> 1000" "isElementVisible A l s = (Inr v, later k s)"
    "v \<longleftrightarrow> (\<exists>j\<le>1000. visibleIn A (later j s) l)" "v \<longrightarrow> visibleIn A (later k s) l"
    "\<not> v \<longrightarrow> k = 1000"
proof (cases rule: isElementVisible_cases [of A l s])
  case (seen k)
  from seen(1,3) have "\<exists>j\<le>1000. visibleIn A (later j s) l" by blast
  with seen show thesis by (intro that [of k True]) simp_all
next
  case unseen
  then show thesis by (intro that [of 1000 False]) simp_all
qed

lemma waitForLoadState_cases [case_names fired timeout]:
  obtains (fired) k where "k \<le> n" "waitForLoadState A st n s = (Inr (), later k s)"
      "firedIn A (later k s) st" "\<forall>j<k. \<not> firedIn A (later j s) st"
  | (timeout) "waitForLoadState A st n s = (Inl TimeoutError, later n s)"
      "\<forall>j\<le>n. \<not> firedIn A (later j s) st"
proof (cases rule: poll_cases [of n "\<lambda>p. firedIn A p st" s])
  case (found k)
  from found(2) have "waitForLoadState A st n s = (Inr (), later k s)"
    by (simp add: waitForLoadState_def)
  then show thesis using found(1,3,4) that(1) by blast
next
  case never
  from never(1) have "waitForLoadState A st n s = (Inl TimeoutError, later n s)"
    by (simp add: waitForLoadState_def)
  then show thesis using never(2) that(2) by blast
qed

lemma waitForLoadState_first:
  assumes "k \<le> n" and "firedIn A (later k s) st" and "\<And>j. j < k \<Longrightarrow> \<not> firedIn A (later j s) st"
  shows "waitForLoadState A st n s = (Inr (), later k s)"
proof -
  have "poll (\<lambda>p. firedIn A p st) n s = (True, later k s)"
    using assms by (intro poll_first) simp_all
  then show ?thesis by (simp add: waitForLoadState_def)
qed

lemma waitForLoadState_now:
  assumes "firedIn A s st"
  shows "waitForLoadState A st n s = (Inr (), s)"
  using waitForLoadState_first [of 0 n A s st] assms by simp

lemma actionsOf_later [simp]: "actionsOf (later k s) = actionsOf s"
  by (simp add: actionsOf_def)

lemma actionsOf_performed [simp]: "actionsOf (performed a s) = actionsOf s @ [a]"
  by (simp add: actionsOf_def)

lemma isElementChecked_cases [case_names read timeout]:
  obtains (read) k where "k \<le> 10000" "visibleIn A (later k s) l"
      "isElementChecked A l s = (Inr (checkedIn A (later k s) l), later k s)"
  | (timeout) "isElementChecked A l s = (Inl TimeoutError, later 10000 s)"
proof (cases rule: waitFor_cases [of 10000 A l Visible s])
  case (found k)
  from found(2) have "isElementChecked A l s = (Inr (checkedIn A (later k s) l), later k s)"
    by (simp add: isElementChecked_def waitForElement_def await_def isChecked_def)
  with found(1,3) show thesis by (intro read [of k]) simp_all
next
  case timeout
  from timeout(1) have "isElementChecked A l s = (Inl TimeoutError, later 10000 s)"
    by (simp add: isElementChecked_def waitForElement_def await_def)
  then show thesis by (rule that(2))
qed

lemma clickElement_cases [case_names clicked rejected timeout]:
  obtains (clicked) k where "k \<le> n" "visibleIn A (later k s) l" "\<not> rejects A (later k s) (Click l)"
      "clickElement A l n s = (Inr (), performed (Click l) (later k s))"
  | (rejected) k where "k \<le> n" "rejects A (later k s) (Click l)"
      "clickElement A l n s = (Inl ActionError, later k s)"
  | (timeout) "clickElement A l n s = (Inl TimeoutError, later n s)"
proof (cases rule: waitFor_cases [of n A l Visible s])
  case (found k)
  show thesis
  proof (cases "rejects A (later k s) (Click l)")
    case True
    with found(2) have "clickElement A l n s = (Inl ActionError, later k s)"
      by (simp add: clickElement_def waitForElement_def await_def click_def perform_def)
    with found(1) True show thesis by (intro rejected [of k]) simp_all
  next
    case False
    with found(2) have "clickElement A l n s = (Inr (), performed (Click l) (later k s))"
      by (simp add: clickElement_def waitForElement_def await_def click_def perform_def)
    with found(1,3) False show thesis by (intro clicked [of k]) simp_all
  qed
next
  case timeout
  from timeout(1) have "clickElement A l n s = (Inl TimeoutError, later n s)"
    by (simp add: clickElement_def waitForElement_def await_def)
  then show thesis by (rule that(3))
qed

lemma clickElement_now:
  assumes "visibleIn A s l" and "\<not> rejects A s (Click l)"
  shows "clickElement A l n s = (Inr (), performed (Click l) s)"
proof -
  from assms(1) have "waitFor A l Visible n s = (Inr (), s)"
    by (intro waitFor_now) simp
  with assms(2) show ?thesis
    by (simp add: clickElement_def waitForElement_def await_def click_def perform_def)
qed

lemma isElementChecked_now:
  assumes "visibleIn A s l"
  shows "isElementChecked A l s = (Inr (checkedIn A s l), s)"
proof -
  from assms have "waitFor A l Visible 10000 s = (Inr (), s)"
    by (intro waitFor_now) simp
  then show ?thesis
    by (simp add: isElementChecked_def waitForElement_def await_def isChecked_def)
qed

lemma loginFormApp_simps [simp]:
  "visibleIn (loginFormApp accept) p l \<longleftrightarrow> l = loginForm \<or> l = emailInput \<or>
     l = passwordInput \<or> l = loginButton \<or> l = rememberMeCheckbox \<or>
     (l = errorMessage \<and> \<not> accept \<and> 0 < clicksOn loginButton p)"
  "checkedIn (loginFormApp accept) p l \<longleftrightarrow>
     l = rememberMeCheckbox \<and> odd (clicksOn rememberMeCheckbox p)"
  "textIn (loginFormApp accept) p l
     = (if l = errorMessage then Some ''Invalid email or password'' else None)"
  "valueIn (loginFormApp accept) p l = lastInput l (rev (actionsOf p))"
  "pathnameIn (loginFormApp accept) p
     = (if accept \<and> 0 < clicksOn loginButton p then ''/dashboard'' else ''/login'')"
  "firedIn (loginFormApp accept) p st"
  "\<not> rejects (loginFormApp accept) p a"
  by (simp_all add: loginFormApp_def)

lemma clicksOn_simps [simp]:
  "clicksOn l (later k p) = clicksOn l p"
  "clicksOn l (performed a p) = (if a = Click l then Suc (clicksOn l p) else clicksOn l p)"
  "clicksOn l startPage = 0"
  by (simp_all add: clicksOn_def actionsOf_def startPage_def)

section \<open>The soft probe\<close>

text \<open>
  Claim C4. For every element locator, \<^verbatim>\<open>isElementVisible\<close> never throws: on every
  application and page it returns a boolean. It waits at most the fixed probe timeout of
  1000 ms, returns true exactly when the element becomes visible at some moment of that
  window (and then returns at the first such moment), and returns false, at the end of
  the window, otherwise: the timeout of the wait is not propagated.
\<close>

theorem isElementVisible_soft_probe:
  "\<exists>b k. k \<le> 1000 \<and> isElementVisible A l s = (Inr b, later k s) \<and>
     (b \<longleftrightarrow> (\<exists>j\<le>1000. visibleIn A (later j s) l)) \<and>
     (b \<longrightarrow> visibleIn A (later k s) l \<and> (\<forall>j<k. \<not> visibleIn A (later j s) l)) \<and>
     (\<not> b \<longrightarrow> k = 1000)"
proof (cases rule: isElementVisible_cases [of A l s])
  case (seen k)
  from seen(1,3) have "\<exists>j\<le>1000. visibleIn A (later j s) l" by blast
  with seen have "k \<le> 1000 \<and> isElementVisible A l s = (Inr True, later k s) \<and>
     (True \<longleftrightarrow> (\<exists>j\<le>1000. visibleIn A (later j s) l)) \<and>
     (True \<longrightarrow> visibleIn A (later k s) l \<and> (\<forall>j<k. \<not> visibleIn A (later j s) l)) \<and>
     (\<not> True \<longrightarrow> k = 1000)"
    by simp
  then show ?thesis by blast
next
  case unseen
  then have "1000 \<le> (1000::nat) \<and> isElementVisible A l s = (Inr False, later 1000 s) \<and>
     (False \<longleftrightarrow> (\<exists>j\<le>1000. visibleIn A (later j s) l)) \<and>
     (False \<longrightarrow> visibleIn A (later 1000 s) l \<and> (\<forall>j<1000. \<not> visibleIn A (later j s) l)) \<and>
     (\<not> False \<longrightarrow> (1000::nat) = 1000)"
    by simp
  then show ?thesis by blast
qed

theorem isElementVisible_soft_probe_witness:
  "isElementVisible blankApp adminPanel startPage = (Inr False, later 1000 startPage) \<and>
   isElementVisible lateAdminApp adminPanel startPage = (Inr True, later 3 startPage)"
proof
  from isElementVisible_soft_probe [of blankApp adminPanel startPage]
  obtain b k where r: "isElementVisible blankApp adminPanel startPage = (Inr b, later k startPage)"
    "b \<longleftrightarrow> (\<exists>j\<le>1000. visibleIn blankApp (later j startPage) adminPanel)"
    "\<not> b \<longrightarrow> k = 1000"
    by blast
  from r(2) have "\<not> b" by (simp add: blankApp_def)
  with r show "isElementVisible blankApp adminPanel startPage = (Inr False, later 1000 startPage)"
    by simp
next
  have vis: "visibleIn lateAdminApp (later j startPage) adminPanel \<longleftrightarrow> 3 \<le> j" for j
    by (simp add: lateAdminApp_def startPage_def)
  from isElementVisible_soft_probe [of lateAdminApp adminPanel startPage]
  obtain b k where r: "isElementVisible lateAdminApp adminPanel startPage = (Inr b, later k startPage)"
    "b \<longleftrightarrow> (\<exists>j\<le>1000. visibleIn lateAdminApp (later j startPage) adminPanel)"
    "b \<longrightarrow> visibleIn lateAdminApp (later k startPage) adminPanel \<and>
       (\<forall>j<k. \<not> visibleIn lateAdminApp (later j startPage) adminPanel)"
    by blast
  have "\<exists>j\<le>1000. visibleIn lateAdminApp (later j startPage) adminPanel"
    unfolding vis by (intro exI [of _ 3]) simp
  with r(2) have b by simp
  with r(3) have "3 \<le> k" "\<forall>j<k. \<not> 3 \<le> j" unfolding vis by simp_all
  then have "k = 3" by (metis le_neq_implies_less order_refl)
  with r(1) \<open>b\<close> show "isElementVisible lateAdminApp adminPanel startPage = (Inr True, later 3 startPage)"
    by simp
qed


section \<open>Waiting for the loading spinner\<close>

lemma waitForLoadingToComplete_total: "\<exists>s'. waitForLoadingToComplete A s = (Inr (), s')"
proof (cases "await (waitForElement A loadingSpinner TIMEOUTS_SHORT)
          (\<lambda>_. waitForElementToBeHidden A loadingSpinner TIMEOUTS_MEDIUM) s")
  case (Pair r s1)
  show ?thesis
  proof (cases r)
    case (Inl e)
    with Pair show ?thesis
      by (simp add: waitForLoadingToComplete_def tryCatch_def resolve_def)
  next
    case (Inr u)
    with Pair show ?thesis
      by (simp add: waitForLoadingToComplete_def tryCatch_def)
  qed
qed

text \<open>
  Claim C8. \<^verbatim>\<open>waitForLoadingToComplete\<close> does not fail when the loading spinner never
  appears within its short wait (\<^verbatim>\<open>TIMEOUTS.SHORT\<close>, 5000 ms): the wait for the spinner
  times out, and the operation returns normally at the end of that wait instead of
  surfacing the timeout.
\<close>

theorem waitForLoadingToComplete_spinner_absent:
  assumes "\<forall>j\<le>5000. \<not> visibleIn A (later j s) loadingSpinner"
  shows "waitForElement A loadingSpinner TIMEOUTS_SHORT s = (Inl TimeoutError, later 5000 s) \<and>
    waitForLoadingToComplete A s = (Inr (), later 5000 s)"
proof -
  have w: "waitForElement A loadingSpinner TIMEOUTS_SHORT s = (Inl TimeoutError, later 5000 s)"
    unfolding waitForElement_def TIMEOUTS_SHORT_def
    using assms by (intro waitFor_never) simp
  then have "await (waitForElement A loadingSpinner TIMEOUTS_SHORT)
      (\<lambda>_. waitForElementToBeHidden A loadingSpinner TIMEOUTS_MEDIUM) s
      = (Inl TimeoutError, later 5000 s)"
    by (rule await_Inl)
  then have "waitForLoadingToComplete A s = resolve () (later 5000 s)"
    unfolding waitForLoadingToComplete_def by (rule tryCatch_Inl)
  with w show ?thesis by (simp add: resolve_def)
qed

theorem waitForLoadingToComplete_spinner_absent_witness:
  "waitForLoadingToComplete blankApp startPage = (Inr (), \<lparr>clock = 5000, history = []\<rparr>)"
proof -
  have "\<forall>j\<le>5000. \<not> visibleIn blankApp (later j startPage) loadingSpinner"
    by (simp add: blankApp_def)
  from waitForLoadingToComplete_spinner_absent [OF this]
  show ?thesis by (simp add: later_def startPage_def)
qed

text \<open>
  Claim C10. \<^verbatim>\<open>waitForLoadingToComplete\<close> never throws, whatever the application does.
  In particular, when the spinner appears within the short wait and then stays visible
  for the whole 10000 ms of the wait for it to hide, that wait times out and the timeout
  is discarded too: the operation returns normally.
\<close>

theorem waitForLoadingToComplete_never_throws:
  "(\<exists>s'. waitForLoadingToComplete A s = (Inr (), s')) \<and>
   (\<forall>k. k \<le> 5000 \<and> visibleIn A (later k s) loadingSpinner \<and>
        (\<forall>j<k. \<not> visibleIn A (later j s) loadingSpinner) \<and>
        (\<forall>j\<le>10000. visibleIn A (later (k + j) s) loadingSpinner) \<longrightarrow>
      waitForElement A loadingSpinner TIMEOUTS_SHORT s = (Inr (), later k s) \<and>
      waitForElementToBeHidden A loadingSpinner TIMEOUTS_MEDIUM (later k s)
        = (Inl TimeoutError, later (k + 10000) s) \<and>
      waitForLoadingToComplete A s = (Inr (), later (k + 10000) s))"
proof (rule conjI [OF waitForLoadingToComplete_total], intro allI impI)
  fix k
  assume a: "k \<le> 5000 \<and> visibleIn A (later k s) loadingSpinner \<and>
        (\<forall>j<k. \<not> visibleIn A (later j s) loadingSpinner) \<and>
        (\<forall>j\<le>10000. visibleIn A (later (k + j) s) loadingSpinner)"
  have w1: "waitForElement A loadingSpinner TIMEOUTS_SHORT s = (Inr (), later k s)"
    unfolding waitForElement_def TIMEOUTS_SHORT_def
    using a by (intro waitFor_first) simp_all
  have w2: "waitForElementToBeHidden A loadingSpinner TIMEOUTS_MEDIUM (later k s)
        = (Inl TimeoutError, later (k + 10000) s)"
    unfolding waitForElementToBeHidden_def TIMEOUTS_MEDIUM_def
    using a waitFor_never [of 10000 A "later k s" loadingSpinner Hidden] by simp
  from w1 have "await (waitForElement A loadingSpinner TIMEOUTS_SHORT)
      (\<lambda>_. waitForElementToBeHidden A loadingSpinner TIMEOUTS_MEDIUM) s
      = waitForElementToBeHidden A loadingSpinner TIMEOUTS_MEDIUM (later k s)"
    by (rule await_Inr)
  with w2 have "waitForLoadingToComplete A s = resolve () (later (k + 10000) s)"
    unfolding waitForLoadingToComplete_def by (intro tryCatch_Inl) simp
  with w1 w2 show "waitForElement A loadingSpinner TIMEOUTS_SHORT s = (Inr (), later k s) \<and>
      waitForElementToBeHidden A loadingSpinner TIMEOUTS_MEDIUM (later k s)
        = (Inl TimeoutError, later (k + 10000) s) \<and>
      waitForLoadingToComplete A s = (Inr (), later (k + 10000) s)"
    by (simp add: resolve_def)
qed

theorem waitForLoadingToComplete_never_throws_witness:
  "waitForElementToBeHidden stuckSpinnerApp loadingSpinner TIMEOUTS_MEDIUM startPage
     = (Inl TimeoutError, \<lparr>clock = 10000, history = []\<rparr>) \<and>
   waitForLoadingToComplete stuckSpinnerApp startPage = (Inr (), \<lparr>clock = 10000, history = []\<rparr>)"
proof -
  have "0 \<le> (5000::nat) \<and> visibleIn stuckSpinnerApp (later 0 startPage) loadingSpinner \<and>
        (\<forall>j<0. \<not> visibleIn stuckSpinnerApp (later j startPage) loadingSpinner) \<and>
        (\<forall>j\<le>10000. visibleIn stuckSpinnerApp (later (0 + j) startPage) loadingSpinner)"
    by (simp add: stuckSpinnerApp_def)
  with waitForLoadingToComplete_never_throws [of stuckSpinnerApp startPage]
  have "waitForElementToBeHidden stuckSpinnerApp loadingSpinner TIMEOUTS_MEDIUM (later 0 startPage)
        = (Inl TimeoutError, later (0 + 10000) startPage) \<and>
      waitForLoadingToComplete stuckSpinnerApp startPage = (Inr (), later (0 + 10000) startPage)"
    by blast
  then show ?thesis by (simp add: later_def startPage_def)
qed


section \<open>Admin-only controls on the dashboard\<close>

lemma validateStandardUserElements_probes:
  assumes "isElementVisible A adminPanel s = (Inr v1, s1)"
    and "isElementVisible A userManagementLink s1 = (Inr v2, s2)"
  shows "validateStandardUserElements A s = (if v1 \<or> v2 then Inl AssertionError else Inr (), s2)"
proof -
  have "validateStandardUserElements A s =
      await (expectToBe v1 False) (\<lambda>_. expectToBe v2 False) s2"
    unfolding validateStandardUserElements_def
    using assms by (simp add: await_def)
  then show ?thesis by (simp add: await_def expectToBe_False)
qed

lemma validateAdminElements_probes:
  assumes "isElementVisible A adminPanel s = (Inr v1, s1)"
    and "v1 \<longrightarrow> visibleIn A s1 adminPanel"
    and "isElementVisible A userManagementLink s1 = (Inr v2, s2)"
    and "v2 \<longrightarrow> visibleIn A s2 userManagementLink"
  shows "validateAdminElements A s = (Inr (), s2)"
proof -
  have first: "(if v1 then expectToBeVisible A adminPanel else resolve ()) s1 = (Inr (), s1)"
    using assms(2) by (simp add: expectToBeVisible_now resolve_def)
  have second: "(if v2 then expectToBeVisible A userManagementLink else resolve ()) s2 = (Inr (), s2)"
    using assms(4) by (simp add: expectToBeVisible_now resolve_def)
  show ?thesis
    unfolding validateAdminElements_def
    using assms(1,3) first second by (simp add: await_def)
qed

text \<open>
  Claim C2. \<^verbatim>\<open>validateStandardUserElements\<close> probes the admin panel and then the
  user-management link, each for its soft-probe window of 1000 ms, and fails (with an
  assertion error) if and only if at least one of them is visible within its window.
  \<^verbatim>\<open>validateAdminElements\<close> runs the same two probes and asserts visibility only of a
  control its probe found visible, so it never fails because a control is absent; with
  no time passing between a probe and the assertion that follows it, it returns normally.
\<close>

theorem admin_controls_hard_and_soft_check:
  "\<exists>v1 k1 v2 k2. k1 \<le> 1000 \<and> k2 \<le> 1000 \<and>
     isElementVisible A adminPanel s = (Inr v1, later k1 s) \<and>
     isElementVisible A userManagementLink (later k1 s) = (Inr v2, later (k1 + k2) s) \<and>
     (v1 \<longleftrightarrow> (\<exists>j\<le>1000. visibleIn A (later j s) adminPanel)) \<and>
     (v2 \<longleftrightarrow> (\<exists>j\<le>1000. visibleIn A (later (k1 + j) s) userManagementLink)) \<and>
     validateStandardUserElements A s
       = (if v1 \<or> v2 then Inl AssertionError else Inr (), later (k1 + k2) s) \<and>
     validateAdminElements A s = (Inr (), later (k1 + k2) s)"
proof -
  obtain v1 k1 where p1: "k1 \<le> 1000" "isElementVisible A adminPanel s = (Inr v1, later k1 s)"
    "v1 \<longleftrightarrow> (\<exists>j\<le>1000. visibleIn A (later j s) adminPanel)"
    "v1 \<longrightarrow> visibleIn A (later k1 s) adminPanel"
    by (rule isElementVisible_probe [of A adminPanel s])
  obtain v2 k2 where p2: "k2 \<le> 1000"
    "isElementVisible A userManagementLink (later k1 s) = (Inr v2, later k2 (later k1 s))"
    "v2 \<longleftrightarrow> (\<exists>j\<le>1000. visibleIn A (later j (later k1 s)) userManagementLink)"
    "v2 \<longrightarrow> visibleIn A (later k2 (later k1 s)) userManagementLink"
    by (rule isElementVisible_probe [of A userManagementLink "later k1 s"])
  note std = validateStandardUserElements_probes [OF p1(2) p2(2)]
  note adm = validateAdminElements_probes [OF p1(2) p1(4) p2(2) p2(4)]
  have "k1 \<le> 1000 \<and> k2 \<le> 1000 \<and>
     isElementVisible A adminPanel s = (Inr v1, later k1 s) \<and>
     isElementVisible A userManagementLink (later k1 s) = (Inr v2, later (k1 + k2) s) \<and>
     (v1 \<longleftrightarrow> (\<exists>j\<le>1000. visibleIn A (later j s) adminPanel)) \<and>
     (v2 \<longleftrightarrow> (\<exists>j\<le>1000. visibleIn A (later (k1 + j) s) userManagementLink)) \<and>
     validateStandardUserElements A s
       = (if v1 \<or> v2 then Inl AssertionError else Inr (), later (k1 + k2) s) \<and>
     validateAdminElements A s = (Inr (), later (k1 + k2) s)"
    using p1(1-3) p2(1-3) std adm by simp
  then show ?thesis by blast
qed

theorem admin_controls_hard_and_soft_check_witness:
  "fst (validateStandardUserElements blankApp startPage) = Inr () \<and>
   fst (validateAdminElements blankApp startPage) = Inr () \<and>
   fst (validateStandardUserElements lateAdminApp startPage) = Inl AssertionError \<and>
   fst (validateAdminElements lateAdminApp startPage) = Inr ()"
proof -
  from admin_controls_hard_and_soft_check [of blankApp startPage]
  obtain v1 k1 v2 k2 where b:
    "v1 \<longleftrightarrow> (\<exists>j\<le>1000. visibleIn blankApp (later j startPage) adminPanel)"
    "v2 \<longleftrightarrow> (\<exists>j\<le>1000. visibleIn blankApp (later (k1 + j) startPage) userManagementLink)"
    "validateStandardUserElements blankApp startPage
       = (if v1 \<or> v2 then Inl AssertionError else Inr (), later (k1 + k2) startPage)"
    "validateAdminElements blankApp startPage = (Inr (), later (k1 + k2) startPage)"
    by blast
  from b(1,2) have "\<not> v1" "\<not> v2" by (simp_all add: blankApp_def)
  with b(3,4) have blank: "fst (validateStandardUserElements blankApp startPage) = Inr ()"
    "fst (validateAdminElements blankApp startPage) = Inr ()"
    by simp_all
  from admin_controls_hard_and_soft_check [of lateAdminApp startPage]
  obtain w1 i1 w2 i2 where l:
    "w1 \<longleftrightarrow> (\<exists>j\<le>1000. visibleIn lateAdminApp (later j startPage) adminPanel)"
    "validateStandardUserElements lateAdminApp startPage
       = (if w1 \<or> w2 then Inl AssertionError else Inr (), later (i1 + i2) startPage)"
    "validateAdminElements lateAdminApp startPage = (Inr (), later (i1 + i2) startPage)"
    by blast
  have "visibleIn lateAdminApp (later 3 startPage) adminPanel"
    by (simp add: lateAdminApp_def)
  then have "\<exists>j\<le>1000. visibleIn lateAdminApp (later j startPage) adminPanel"
    by (intro exI [of _ 3]) simp
  with l(1) have w1 by simp
  with l(2,3) have "fst (validateStandardUserElements lateAdminApp startPage) = Inl AssertionError"
    "fst (validateAdminElements lateAdminApp startPage) = Inr ()"
    by simp_all
  with blank show ?thesis by simp
qed


section \<open>Navigation and load states\<close>

lemma navigateToUrl_returns_iff:
  "navigateToUrl A url timeout s = (Inr (), s') \<longleftrightarrow>
     \<not> rejects A s (Goto url) \<and>
     (\<exists>k\<le>timeout. s' = later k (performed (Goto url) s) \<and> firedIn A s' NetworkIdle \<and>
        (\<forall>j<k. \<not> firedIn A (later j (performed (Goto url) s)) NetworkIdle))"
proof (cases "rejects A s (Goto url)")
  case True
  then show ?thesis
    by (simp add: navigateToUrl_def goto_def await_def perform_def)
next
  case False
  let ?p = "performed (Goto url) s"
  from False have nav: "navigateToUrl A url timeout s = waitForLoadState A NetworkIdle timeout ?p"
    by (simp add: navigateToUrl_def goto_def await_def perform_def)
  show ?thesis
  proof (cases rule: waitForLoadState_cases [of timeout A NetworkIdle ?p])
    case (fired k)
    have "(\<exists>i\<le>timeout. s' = later i ?p \<and> firedIn A s' NetworkIdle \<and>
        (\<forall>j<i. \<not> firedIn A (later j ?p) NetworkIdle)) \<longleftrightarrow> s' = later k ?p"
    proof
      assume "\<exists>i\<le>timeout. s' = later i ?p \<and> firedIn A s' NetworkIdle \<and>
        (\<forall>j<i. \<not> firedIn A (later j ?p) NetworkIdle)"
      then obtain i where i: "s' = later i ?p" "firedIn A (later i ?p) NetworkIdle"
        "\<forall>j<i. \<not> firedIn A (later j ?p) NetworkIdle"
        by blast
      from i(2) fired(4) have "\<not> i < k" by blast
      moreover from fired(3) i(3) have "\<not> k < i" by blast
      ultimately have "i = k" by simp
      with i(1) show "s' = later k ?p" by simp
    next
      assume "s' = later k ?p"
      with fired show "\<exists>i\<le>timeout. s' = later i ?p \<and> firedIn A s' NetworkIdle \<and>
        (\<forall>j<i. \<not> firedIn A (later j ?p) NetworkIdle)"
        by blast
    qed
    with False nav fired(2) show ?thesis by auto
  next
    case timeout
    then have "\<not> (\<exists>i\<le>timeout. s' = later i ?p \<and> firedIn A s' NetworkIdle \<and>
        (\<forall>j<i. \<not> firedIn A (later j ?p) NetworkIdle))"
      by blast
    moreover from nav timeout(1) have "navigateToUrl A url timeout s \<noteq> (Inr (), s')"
      by simp
    ultimately show ?thesis by blast
  qed
qed

lemma waitForPageLoad_returns:
  assumes "waitForPageLoad A timeout s = (Inr (), s')"
  shows "\<exists>k1 k2. k1 \<le> timeout \<and> k2 \<le> timeout \<and> s' = later (k1 + k2) s \<and>
    firedIn A (later k1 s) NetworkIdle \<and> firedIn A s' DomContentLoaded"
proof (cases rule: waitForLoadState_cases [of timeout A NetworkIdle s])
  case (fired k1)
  from fired(2) assms
  have second: "waitForLoadState A DomContentLoaded timeout (later k1 s) = (Inr (), s')"
    by (simp add: waitForPageLoad_def await_def)
  show ?thesis
  proof (cases rule: waitForLoadState_cases [of timeout A DomContentLoaded "later k1 s"])
    case (fired k2)
    from fired(2) second have "s' = later (k1 + k2) s" by simp
    with \<open>k1 \<le> timeout\<close> \<open>firedIn A (later k1 s) NetworkIdle\<close> fired(1,3) show ?thesis
      by (intro exI [of _ k1] exI [of _ k2]) simp
  next
    case timeout
    with second show ?thesis by simp
  qed
next
  case timeout
  with assms show ?thesis by (simp add: waitForPageLoad_def await_def)
qed

lemma navigateToLogin_returns:
  assumes "navigateToLogin A env baseUrl s = (Inr (), s')"
  shows "\<exists>url s1 s2. navigateToUrl A url 30000 s = (Inr (), s1) \<and>
    waitForPageLoad A 30000 s1 = (Inr (), s2) \<and> validateLoginFormIsVisible A s2 = (Inr (), s')"
proof -
  define url where "url = (case baseUrl of None \<Rightarrow> URLs_BASE_URL env
                 | Some b \<Rightarrow> if b = [] then URLs_BASE_URL env else b) @ URLs_LOGIN"
  from assms have run: "await (navigateToUrl A url 30000)
      (\<lambda>_. await (waitForPageLoad A 30000) (\<lambda>_. validateLoginFormIsVisible A)) s = (Inr (), s')"
    by (simp add: navigateToLogin_def url_def Let_def)
  from run obtain u1 s1 where s1: "navigateToUrl A url 30000 s = (Inr u1, s1)"
    "await (waitForPageLoad A 30000) (\<lambda>_. validateLoginFormIsVisible A) s1 = (Inr (), s')"
    by (rule await_returns)
  from s1(2) obtain u2 s2 where s2: "waitForPageLoad A 30000 s1 = (Inr u2, s2)"
    "validateLoginFormIsVisible A s2 = (Inr (), s')"
    by (rule await_returns)
  from s1(1) s2 show ?thesis by auto
qed

text \<open>
  Claim C3 says that \<^verbatim>\<open>navigateToUrl\<close> returns only after the network is idle and the
  document content has loaded. It does not: \<^verbatim>\<open>page.goto\<close> is given
  \<^verbatim>\<open>waitUntil: 'networkidle'\<close> alone, so on an application whose network is idle while
  its document content has not loaded the navigation returns normally.
\<close>

theorem navigateToUrl_dom_not_loaded_counterexample:
  "navigateToUrl idleOnlyApp ''https://example.com/login'' 30000 startPage
     = (Inr (), performed (Goto ''https://example.com/login'') startPage) \<and>
   \<not> firedIn idleOnlyApp (performed (Goto ''https://example.com/login'') startPage) DomContentLoaded"
proof -
  have "firedIn idleOnlyApp (performed (Goto ''https://example.com/login'') startPage) NetworkIdle"
    by (simp add: idleOnlyApp_def)
  then have "waitForLoadState idleOnlyApp NetworkIdle 30000
      (performed (Goto ''https://example.com/login'') startPage)
      = (Inr (), performed (Goto ''https://example.com/login'') startPage)"
    by (rule waitForLoadState_now)
  moreover have "\<not> rejects idleOnlyApp startPage (Goto ''https://example.com/login'')"
    by (simp add: idleOnlyApp_def blankApp_def)
  ultimately have "navigateToUrl idleOnlyApp ''https://example.com/login'' 30000 startPage
     = (Inr (), performed (Goto ''https://example.com/login'') startPage)"
    by (simp add: navigateToUrl_def goto_def await_def perform_def)
  moreover have "\<not> firedIn idleOnlyApp (performed (Goto ''https://example.com/login'') startPage)
      DomContentLoaded"
    by (simp add: idleOnlyApp_def)
  ultimately show ?thesis by simp
qed

text \<open>
  Claim C3, amended. \<^verbatim>\<open>navigateToUrl\<close> returns normally exactly when the browser accepts
  the navigation and the network becomes idle within the timeout, and it returns at the
  first such moment: network idle is the only condition it waits for. The two conditions
  are waited for by \<^verbatim>\<open>waitForPageLoad\<close>, which returns normally only after it has seen
  the network idle and then the document content loaded, each within the timeout; and
  \<^verbatim>\<open>navigateToLogin\<close> returns normally only after \<^verbatim>\<open>navigateToUrl\<close>, then
  \<^verbatim>\<open>waitForPageLoad\<close> (both with 30000 ms), then the check of the login form have
  returned normally.
\<close>

theorem navigation_load_conditions:
  "(navigateToUrl A url timeout s = (Inr (), s') \<longleftrightarrow>
      \<not> rejects A s (Goto url) \<and>
      (\<exists>k\<le>timeout. s' = later k (performed (Goto url) s) \<and> firedIn A s' NetworkIdle \<and>
         (\<forall>j<k. \<not> firedIn A (later j (performed (Goto url) s)) NetworkIdle))) \<and>
   (waitForPageLoad A timeout s = (Inr (), s') \<longrightarrow>
      (\<exists>k1 k2. k1 \<le> timeout \<and> k2 \<le> timeout \<and> s' = later (k1 + k2) s \<and>
         firedIn A (later k1 s) NetworkIdle \<and> firedIn A s' DomContentLoaded)) \<and>
   (navigateToLogin A env baseUrl s = (Inr (), s') \<longrightarrow>
      (\<exists>u s1 s2. navigateToUrl A u 30000 s = (Inr (), s1) \<and>
         waitForPageLoad A 30000 s1 = (Inr (), s2) \<and>
         validateLoginFormIsVisible A s2 = (Inr (), s')))"
  using navigateToUrl_returns_iff [of A url timeout s s'] waitForPageLoad_returns [of A timeout s s']
    navigateToLogin_returns [of A env baseUrl s s']
  by blast

theorem navigation_load_conditions_witness:
  "navigateToUrl readyApp ''https://example.com/login'' 30000 startPage
     = (Inr (), performed (Goto ''https://example.com/login'') startPage) \<and>
   navigateToUrl idleOnlyApp ''https://example.com/login'' 30000 startPage
     = (Inr (), performed (Goto ''https://example.com/login'') startPage) \<and>
   fst (waitForPageLoad idleOnlyApp 30000 startPage) \<noteq> Inr ()"
proof -
  let ?u = "''https://example.com/login''"
  have ready: "\<not> rejects readyApp startPage (Goto ?u) \<and>
      (\<exists>k\<le>30000. performed (Goto ?u) startPage = later k (performed (Goto ?u) startPage) \<and>
         firedIn readyApp (performed (Goto ?u) startPage) NetworkIdle \<and>
         (\<forall>j<k. \<not> firedIn readyApp (later j (performed (Goto ?u) startPage)) NetworkIdle))"
    by (simp add: readyApp_def blankApp_def exI [of _ 0])
  have idle: "\<not> rejects idleOnlyApp startPage (Goto ?u) \<and>
      (\<exists>k\<le>30000. performed (Goto ?u) startPage = later k (performed (Goto ?u) startPage) \<and>
         firedIn idleOnlyApp (performed (Goto ?u) startPage) NetworkIdle \<and>
         (\<forall>j<k. \<not> firedIn idleOnlyApp (later j (performed (Goto ?u) startPage)) NetworkIdle))"
    by (simp add: idleOnlyApp_def blankApp_def exI [of _ 0])
  have never: "\<not> firedIn idleOnlyApp p DomContentLoaded" for p
    by (simp add: idleOnlyApp_def)
  have "fst (waitForPageLoad idleOnlyApp 30000 startPage) \<noteq> Inr ()"
  proof
    assume "fst (waitForPageLoad idleOnlyApp 30000 startPage) = Inr ()"
    then have "waitForPageLoad idleOnlyApp 30000 startPage
        = (Inr (), snd (waitForPageLoad idleOnlyApp 30000 startPage))"
      by (metis prod.collapse)
    with navigation_load_conditions [of idleOnlyApp ?u 30000 startPage
        "snd (waitForPageLoad idleOnlyApp 30000 startPage)" None None]
    have "firedIn idleOnlyApp (snd (waitForPageLoad idleOnlyApp 30000 startPage)) DomContentLoaded"
      by blast
    with never show False by blast
  qed
  moreover from ready navigation_load_conditions [of readyApp ?u 30000 startPage
      "performed (Goto ?u) startPage" None None]
  have "navigateToUrl readyApp ?u 30000 startPage = (Inr (), performed (Goto ?u) startPage)"
    by blast
  moreover from idle navigation_load_conditions [of idleOnlyApp ?u 30000 startPage
      "performed (Goto ?u) startPage" None None]
  have "navigateToUrl idleOnlyApp ?u 30000 startPage = (Inr (), performed (Goto ?u) startPage)"
    by blast
  ultimately show ?thesis by simp
qed


section \<open>The remember-me checkbox\<close>

text \<open>Every way a call of \<open>setRememberMe\<close> can go.\<close>

lemma setRememberMe_cases [case_names kept clicked rejected timeout]:
  obtains (kept) k where "k \<le> 10000" "checkedIn A (later k s) rememberMeCheckbox = b"
      "setRememberMe A b s = (Inr (), later k s)"
  | (clicked) k where "k \<le> 10000" "checkedIn A (later k s) rememberMeCheckbox \<noteq> b"
      "setRememberMe A b s = (Inr (), performed (Click rememberMeCheckbox) (later k s))"
  | (rejected) k where "k \<le> 10000" "checkedIn A (later k s) rememberMeCheckbox \<noteq> b"
      "setRememberMe A b s = (Inl ActionError, later k s)"
  | (timeout) "setRememberMe A b s = (Inl TimeoutError, later 10000 s)"
proof (cases rule: isElementChecked_cases [of A s rememberMeCheckbox])
  case (read k)
  let ?c = "checkedIn A (later k s) rememberMeCheckbox"
  show thesis
  proof (cases "?c = b")
    case True
    with read(3) have "setRememberMe A b s = (Inr (), later k s)"
      by (simp add: setRememberMe_def await_def resolve_def)
    with read(1) True show thesis by (intro kept [of k]) simp_all
  next
    case False
    with read(3) have run: "setRememberMe A b s
        = clickElement A rememberMeCheckbox 10000 (later k s)"
      by (simp add: setRememberMe_def await_def)
    show thesis
    proof (cases "rejects A (later k s) (Click rememberMeCheckbox)")
      case True
      from read(2) have "waitFor A rememberMeCheckbox Visible 10000 (later k s) = (Inr (), later k s)"
        by (intro waitFor_now) simp
      with True run have "setRememberMe A b s = (Inl ActionError, later k s)"
        by (simp add: clickElement_def waitForElement_def await_def click_def perform_def)
      with read(1) False show thesis by (intro rejected [of k]) simp_all
    next
      case notrej: False
      with read(2) run have "setRememberMe A b s
          = (Inr (), performed (Click rememberMeCheckbox) (later k s))"
        by (simp add: clickElement_now)
      with read(1) False show thesis by (intro clicked [of k]) simp_all
    qed
  qed
next
  case timeout
  then have "setRememberMe A b s = (Inl TimeoutError, later 10000 s)"
    by (simp add: setRememberMe_def await_def)
  then show thesis by (rule that(4))
qed

text \<open>
  Claim C5. \<^verbatim>\<open>setRememberMe(checked)\<close> converges: it reads the checkbox first and clicks
  only if the state read differs from the requested one. On an application whose
  remember-me checkbox keeps its state while time passes and flips it on a click, a call
  that returns normally has issued one click if the state differed and none otherwise,
  and leaves the checkbox in the requested state; a second call with the same argument
  then issues no action at all and leaves the checkbox in that state, whether it returns
  normally or its wait for the checkbox times out.
\<close>

theorem setRememberMe_convergent:
  assumes time: "\<And>p k. checkedIn A (later k p) rememberMeCheckbox
      = checkedIn A p rememberMeCheckbox"
    and toggle: "\<And>p. checkedIn A (performed (Click rememberMeCheckbox) p) rememberMeCheckbox
      = (\<not> checkedIn A p rememberMeCheckbox)"
    and first: "setRememberMe A b s = (Inr (), s1)"
  shows "actionsOf s1 = actionsOf s @
      (if checkedIn A s rememberMeCheckbox = b then [] else [Click rememberMeCheckbox]) \<and>
    checkedIn A s1 rememberMeCheckbox = b \<and>
    (\<exists>r k. k \<le> 10000 \<and> setRememberMe A b s1 = (r, later k s1) \<and>
       (r = Inr () \<or> r = Inl TimeoutError)) \<and>
    (\<forall>r s2. setRememberMe A b s1 = (r, s2) \<longrightarrow>
       actionsOf s2 = actionsOf s1 \<and> checkedIn A s2 rememberMeCheckbox = b)"
proof -
  have one: "actionsOf s1 = actionsOf s @
      (if checkedIn A s rememberMeCheckbox = b then [] else [Click rememberMeCheckbox]) \<and>
    checkedIn A s1 rememberMeCheckbox = b"
  proof (cases rule: setRememberMe_cases [of A s b])
    case (kept k)
    from kept(3) first have s1: "s1 = later k s" by simp
    from kept(2) time [of k s] have "checkedIn A s rememberMeCheckbox = b" by simp
    with s1 kept(2) show ?thesis by simp
  next
    case (clicked k)
    from clicked(3) first have s1: "s1 = performed (Click rememberMeCheckbox) (later k s)"
      by simp
    from clicked(2) time [of k s] have ne: "checkedIn A s rememberMeCheckbox \<noteq> b" by simp
    from toggle [of "later k s"] clicked(2)
    have "checkedIn A (performed (Click rememberMeCheckbox) (later k s)) rememberMeCheckbox = b"
      by auto
    with s1 ne show ?thesis by simp
  next
    case (rejected k)
    with first show ?thesis by simp
  next
    case timeout
    with first show ?thesis by simp
  qed
  then have b: "checkedIn A s1 rememberMeCheckbox = b" by simp
  have two: "\<exists>k\<le>10000. setRememberMe A b s1 = (Inr (), later k s1) \<or>
      setRememberMe A b s1 = (Inl TimeoutError, later k s1)"
  proof (cases rule: setRememberMe_cases [of A s1 b])
    case (kept k)
    then show ?thesis by blast
  next
    case (clicked k)
    with b time [of k s1] show ?thesis by simp
  next
    case (rejected k)
    with b time [of k s1] show ?thesis by simp
  next
    case timeout
    then show ?thesis by blast
  qed
  then obtain k where k: "k \<le> 10000" "setRememberMe A b s1 = (Inr (), later k s1) \<or>
      setRememberMe A b s1 = (Inl TimeoutError, later k s1)"
    by blast
  from k have ex: "\<exists>r k. k \<le> 10000 \<and> setRememberMe A b s1 = (r, later k s1) \<and>
       (r = Inr () \<or> r = Inl TimeoutError)"
    by blast
  have all: "\<forall>r s2. setRememberMe A b s1 = (r, s2) \<longrightarrow>
       actionsOf s2 = actionsOf s1 \<and> checkedIn A s2 rememberMeCheckbox = b"
  proof (intro allI impI)
    fix r s2 assume "setRememberMe A b s1 = (r, s2)"
    with k(2) have "s2 = later k s1" by auto
    with b time [of k s1]
    show "actionsOf s2 = actionsOf s1 \<and> checkedIn A s2 rememberMeCheckbox = b"
      by simp
  qed
  from one ex all show ?thesis by blast
qed

theorem setRememberMe_convergent_witness:
  "setRememberMe (loginFormApp True) True startPage
     = (Inr (), performed (Click rememberMeCheckbox) startPage) \<and>
   actionsOf (snd (setRememberMe (loginFormApp True) True
     (performed (Click rememberMeCheckbox) startPage))) = [Click rememberMeCheckbox] \<and>
   checkedIn (loginFormApp True) (snd (setRememberMe (loginFormApp True) True
     (performed (Click rememberMeCheckbox) startPage))) rememberMeCheckbox"
proof -
  let ?A = "loginFormApp True"
  let ?s1 = "performed (Click rememberMeCheckbox) startPage"
  have time: "\<And>p k. checkedIn ?A (later k p) rememberMeCheckbox
      = checkedIn ?A p rememberMeCheckbox"
    by simp
  have toggle: "\<And>p. checkedIn ?A (performed (Click rememberMeCheckbox) p) rememberMeCheckbox
      = (\<not> checkedIn ?A p rememberMeCheckbox)"
    by simp
  have first: "setRememberMe ?A True startPage = (Inr (), ?s1)"
    by (simp add: setRememberMe_def await_def isElementChecked_now clickElement_now)
  from setRememberMe_convergent [of ?A True startPage ?s1, OF time toggle first]
  have "\<forall>r s2. setRememberMe ?A True ?s1 = (r, s2) \<longrightarrow>
       actionsOf s2 = actionsOf ?s1 \<and> checkedIn ?A s2 rememberMeCheckbox = True"
    by blast
  then have "actionsOf (snd (setRememberMe ?A True ?s1)) = actionsOf ?s1 \<and>
      checkedIn ?A (snd (setRememberMe ?A True ?s1)) rememberMeCheckbox = True"
    by (metis prod.collapse)
  with first show ?thesis by (simp add: actionsOf_def startPage_def)
qed


section \<open>Clearing the login form\<close>

text \<open>The readers of the login page return the values the theorems below speak of.\<close>

lemma form_readers:
  "getEmailValue A s = (Inr (valueIn A s emailInput), s)"
  "getPasswordValue A s = (Inr (valueIn A s passwordInput), s)"
  "visibleIn A s rememberMeCheckbox \<Longrightarrow>
     isRememberMeChecked A s = (Inr (checkedIn A s rememberMeCheckbox), s)"
  by (simp_all add: getEmailValue_def getPasswordValue_def isRememberMeChecked_def
      inputValue_def isElementChecked_now)

text \<open>The page and the checkbox as a call of \<open>clearForm\<close> that returns normally leaves them.\<close>

lemma clearForm_returns [consumes 1, case_names untouched clicked]:
  assumes "clearForm A s = (Inr (), s1)"
  obtains (untouched) k where
      "s1 = later k (performed (Clear passwordInput) (performed (Clear emailInput) s))"
      "\<not> checkedIn A s1 rememberMeCheckbox"
  | (clicked) k where
      "s1 = performed (Click rememberMeCheckbox)
         (later k (performed (Clear passwordInput) (performed (Clear emailInput) s)))"
      "checkedIn A (later k (performed (Clear passwordInput) (performed (Clear emailInput) s)))
         rememberMeCheckbox"
proof -
  let ?p = "performed (Clear passwordInput) (performed (Clear emailInput) s)"
  have r1: "\<not> rejects A s (Clear emailInput)"
    using assms by (auto simp: clearForm_def await_def clear_def perform_def split: if_splits)
  then have c1: "clear A emailInput s = (Inr (), performed (Clear emailInput) s)"
    by (simp add: clear_def perform_def)
  have r2: "\<not> rejects A (performed (Clear emailInput) s) (Clear passwordInput)"
    using assms c1 by (auto simp: clearForm_def await_def clear_def perform_def split: if_splits)
  then have c2: "clear A passwordInput (performed (Clear emailInput) s) = (Inr (), ?p)"
    by (simp add: clear_def perform_def)
  from assms c1 c2 have rest: "await (isElementChecked A rememberMeCheckbox)
      (\<lambda>isChecked. if isChecked then setRememberMe A False else resolve ()) ?p = (Inr (), s1)"
    by (simp add: clearForm_def await_def)
  show thesis
  proof (cases rule: isElementChecked_cases [of A ?p rememberMeCheckbox])
    case (read k)
    show thesis
    proof (cases "checkedIn A (later k ?p) rememberMeCheckbox")
      case False
      with rest read(3) have "s1 = later k ?p" by (simp add: await_def resolve_def)
      with False show thesis by (intro untouched [of k]) simp_all
    next
      case True
      with rest read(3) have set: "setRememberMe A False (later k ?p) = (Inr (), s1)"
        by (simp add: await_def)
      show thesis
      proof (cases rule: setRememberMe_cases [of A "later k ?p" False])
        case (kept j)
        from kept(3) set have "s1 = later (k + j) ?p" by simp
        with kept(2) show thesis by (intro untouched [of "k + j"]) simp_all
      next
        case (clicked j)
        from clicked(3) set have "s1 = performed (Click rememberMeCheckbox) (later (k + j) ?p)"
          by simp
        with clicked(2) show thesis by (intro that(2) [of "k + j"]) simp_all
      next
        case (rejected j)
        with set show thesis by simp
      next
        case timeout
        with set show thesis by simp
      qed
    qed
  next
    case timeout
    with rest show thesis by (simp add: await_def)
  qed
qed

lemma clearForm_resets:
  assumes time: "\<And>p k. checkedIn A (later k p) rememberMeCheckbox
      = checkedIn A p rememberMeCheckbox"
    and toggle: "\<And>p. checkedIn A (performed (Click rememberMeCheckbox) p) rememberMeCheckbox
      = (\<not> checkedIn A p rememberMeCheckbox)"
    and clears: "\<And>p l. l = emailInput \<or> l = passwordInput \<Longrightarrow>
      checkedIn A (performed (Clear l) p) rememberMeCheckbox = checkedIn A p rememberMeCheckbox"
    and emptied: "\<And>p l. l = emailInput \<or> l = passwordInput \<Longrightarrow>
      valueIn A (performed (Clear l) p) l = []"
    and others: "\<And>p. valueIn A (performed (Clear passwordInput) p) emailInput
      = valueIn A p emailInput"
    and vtime: "\<And>p k l. l = emailInput \<or> l = passwordInput \<Longrightarrow>
      valueIn A (later k p) l = valueIn A p l"
    and vclick: "\<And>p l. l = emailInput \<or> l = passwordInput \<Longrightarrow>
      valueIn A (performed (Click rememberMeCheckbox) p) l = valueIn A p l"
    and run: "clearForm A s = (Inr (), s1)"
  shows "valueIn A s1 emailInput = [] \<and> valueIn A s1 passwordInput = [] \<and>
    \<not> checkedIn A s1 rememberMeCheckbox \<and>
    actionsOf s1 = actionsOf s @ [Clear emailInput, Clear passwordInput] @
      (if checkedIn A s rememberMeCheckbox then [Click rememberMeCheckbox] else [])"
proof -
  let ?p = "performed (Clear passwordInput) (performed (Clear emailInput) s)"
  have e: "valueIn A ?p emailInput = []" by (simp add: others emptied)
  have p: "valueIn A ?p passwordInput = []" by (simp add: emptied)
  have c: "checkedIn A ?p rememberMeCheckbox = checkedIn A s rememberMeCheckbox"
    by (simp add: clears)
  from run show ?thesis
  proof (cases rule: clearForm_returns)
    case (untouched k)
    from untouched time [of k ?p] c have "\<not> checkedIn A s rememberMeCheckbox" by simp
    with untouched e p show ?thesis by (simp add: vtime)
  next
    case (clicked k)
    from clicked(2) time [of k ?p] c have "checkedIn A s rememberMeCheckbox" by simp
    moreover from clicked toggle [of "later k ?p"] have "\<not> checkedIn A s1 rememberMeCheckbox"
      by simp
    ultimately show ?thesis using clicked(1) e p by (simp add: vtime vclick)
  qed
qed

text \<open>
  Claim C6. \<^verbatim>\<open>clearForm\<close> is idempotent. On an application whose form behaves as form
  controls do (clearing the email or the password input empties it and changes neither
  the other input nor the checkbox; a click on the remember-me checkbox flips it and
  changes neither input; the passing of time changes none of them), a call that returns
  normally leaves the email input empty, the password input empty and the checkbox
  unchecked, having clicked the checkbox only if it was checked; a second call that
  returns normally leaves the same three values, and issues the two clears and no click.
\<close>

theorem clearForm_idempotent:
  assumes time: "\<And>p k. checkedIn A (later k p) rememberMeCheckbox
      = checkedIn A p rememberMeCheckbox"
    and toggle: "\<And>p. checkedIn A (performed (Click rememberMeCheckbox) p) rememberMeCheckbox
      = (\<not> checkedIn A p rememberMeCheckbox)"
    and clears: "\<And>p l. l = emailInput \<or> l = passwordInput \<Longrightarrow>
      checkedIn A (performed (Clear l) p) rememberMeCheckbox = checkedIn A p rememberMeCheckbox"
    and emptied: "\<And>p l. l = emailInput \<or> l = passwordInput \<Longrightarrow>
      valueIn A (performed (Clear l) p) l = []"
    and others: "\<And>p. valueIn A (performed (Clear passwordInput) p) emailInput
      = valueIn A p emailInput"
    and vtime: "\<And>p k l. l = emailInput \<or> l = passwordInput \<Longrightarrow>
      valueIn A (later k p) l = valueIn A p l"
    and vclick: "\<And>p l. l = emailInput \<or> l = passwordInput \<Longrightarrow>
      valueIn A (performed (Click rememberMeCheckbox) p) l = valueIn A p l"
    and once: "clearForm A s = (Inr (), s1)"
    and twice: "clearForm A s1 = (Inr (), s2)"
  shows "valueIn A s1 emailInput = [] \<and> valueIn A s1 passwordInput = [] \<and>
    \<not> checkedIn A s1 rememberMeCheckbox \<and>
    valueIn A s2 emailInput = valueIn A s1 emailInput \<and>
    valueIn A s2 passwordInput = valueIn A s1 passwordInput \<and>
    checkedIn A s2 rememberMeCheckbox = checkedIn A s1 rememberMeCheckbox \<and>
    actionsOf s1 = actionsOf s @ [Clear emailInput, Clear passwordInput] @
      (if checkedIn A s rememberMeCheckbox then [Click rememberMeCheckbox] else []) \<and>
    actionsOf s2 = actionsOf s1 @ [Clear emailInput, Clear passwordInput]"
proof -
  note first = clearForm_resets [OF time toggle clears emptied others vtime vclick once]
  note second = clearForm_resets [OF time toggle clears emptied others vtime vclick twice]
  from first second show ?thesis by simp
qed

theorem clearForm_idempotent_witness:
  "clearForm (loginFormApp True)
     (performed (Click rememberMeCheckbox) (performed (Fill emailInput ''a@b.c'') startPage))
   = (Inr (), performed (Click rememberMeCheckbox) (performed (Clear passwordInput)
       (performed (Clear emailInput) (performed (Click rememberMeCheckbox)
         (performed (Fill emailInput ''a@b.c'') startPage))))) \<and>
   valueIn (loginFormApp True)
     (performed (Click rememberMeCheckbox) (performed (Fill emailInput ''a@b.c'') startPage))
     emailInput = ''a@b.c'' \<and>
   valueIn (loginFormApp True) (snd (clearForm (loginFormApp True) (snd (clearForm
     (loginFormApp True) (performed (Click rememberMeCheckbox)
       (performed (Fill emailInput ''a@b.c'') startPage)))))) emailInput = [] \<and>
   \<not> checkedIn (loginFormApp True) (snd (clearForm (loginFormApp True) (snd (clearForm
     (loginFormApp True) (performed (Click rememberMeCheckbox)
       (performed (Fill emailInput ''a@b.c'') startPage)))))) rememberMeCheckbox"
proof -
  let ?A = "loginFormApp True"
  let ?s = "performed (Click rememberMeCheckbox) (performed (Fill emailInput ''a@b.c'') startPage)"
  let ?s1 = "performed (Click rememberMeCheckbox) (performed (Clear passwordInput)
       (performed (Clear emailInput) ?s))"
  let ?s2 = "performed (Clear passwordInput) (performed (Clear emailInput) ?s1)"
  have ne: "passwordInput \<noteq> emailInput"
    by (simp add: passwordInput_def emailInput_def)
  have time: "\<And>p k. checkedIn ?A (later k p) rememberMeCheckbox
      = checkedIn ?A p rememberMeCheckbox"
    by simp
  have toggle: "\<And>p. checkedIn ?A (performed (Click rememberMeCheckbox) p) rememberMeCheckbox
      = (\<not> checkedIn ?A p rememberMeCheckbox)"
    by simp
  have clears: "\<And>p l. l = emailInput \<or> l = passwordInput \<Longrightarrow>
      checkedIn ?A (performed (Clear l) p) rememberMeCheckbox = checkedIn ?A p rememberMeCheckbox"
    by simp
  have emptied: "\<And>p l. l = emailInput \<or> l = passwordInput \<Longrightarrow>
      valueIn ?A (performed (Clear l) p) l = []"
    by simp
  have others: "\<And>p. valueIn ?A (performed (Clear passwordInput) p) emailInput
      = valueIn ?A p emailInput"
    using ne by simp
  have vtime: "\<And>p k l. l = emailInput \<or> l = passwordInput \<Longrightarrow>
      valueIn ?A (later k p) l = valueIn ?A p l"
    by simp
  have vclick: "\<And>p l. l = emailInput \<or> l = passwordInput \<Longrightarrow>
      valueIn ?A (performed (Click rememberMeCheckbox) p) l = valueIn ?A p l"
    by simp
  have once: "clearForm ?A ?s = (Inr (), ?s1)"
    by (simp add: clearForm_def setRememberMe_def await_def clear_def perform_def
        isElementChecked_now clickElement_now)
  have twice: "clearForm ?A ?s1 = (Inr (), ?s2)"
    by (simp add: clearForm_def setRememberMe_def await_def clear_def perform_def
        isElementChecked_now clickElement_now resolve_def)
  have before: "valueIn ?A ?s emailInput = ''a@b.c''"
    by (simp add: startPage_def actionsOf_def)
  from clearForm_idempotent [of ?A ?s ?s1 ?s2,
      OF time toggle clears emptied others vtime vclick once twice]
  have "valueIn ?A ?s2 emailInput = [] \<and> \<not> checkedIn ?A ?s2 rememberMeCheckbox"
    by simp
  with once twice before show ?thesis by simp
qed


section \<open>The actions of the page objects\<close>

lemma issuesI:
  assumes "\<And>s r s'. m s = (r, s') \<Longrightarrow>
    \<exists>F\<in>Fs. \<exists>acts. actionsOf s' = actionsOf s @ acts \<and> prefix acts F \<and> (\<not> isl r \<longrightarrow> acts = F)"
  shows "issues m Fs"
  using assms unfolding issues_def by blast

lemma issuesD:
  assumes "issues m Fs" and "m s = (r, s')"
  obtains F acts where "F \<in> Fs" "actionsOf s' = actionsOf s @ acts" "prefix acts F"
    "\<not> isl r \<longrightarrow> acts = F"
  using assms unfolding issues_def by blast

lemma issues_nothingI:
  assumes "\<And>s r s'. m s = (r, s') \<Longrightarrow> actionsOf s' = actionsOf s"
  shows "issues m {[]}"
proof (rule issuesI)
  fix s r s' assume "m s = (r, s')"
  then have "actionsOf s' = actionsOf s @ []" using assms by simp
  then show "\<exists>F\<in>{[]}. \<exists>acts. actionsOf s' = actionsOf s @ acts \<and> prefix acts F \<and>
      (\<not> isl r \<longrightarrow> acts = F)"
    by auto
qed

lemma issues_mono: "issues m Fs \<Longrightarrow> Fs \<subseteq> Gs \<Longrightarrow> issues m Gs"
  unfolding issues_def by blast

lemma issues_await:
  assumes m: "issues m F1" and f: "\<And>x. issues (f x) F2"
  shows "issues (await m f) {a @ b |a b. a \<in> F1 \<and> b \<in> F2}"
proof (rule issuesI)
  fix s r s' assume run: "await m f s = (r, s')"
  obtain r1 s1 where m1: "m s = (r1, s1)" by (cases "m s")
  from m m1 obtain Fa a where a: "Fa \<in> F1" "actionsOf s1 = actionsOf s @ a" "prefix a Fa"
    "\<not> isl r1 \<longrightarrow> a = Fa"
    by (rule issuesD)
  show "\<exists>F\<in>{a @ b |a b. a \<in> F1 \<and> b \<in> F2}. \<exists>acts. actionsOf s' = actionsOf s @ acts \<and>
      prefix acts F \<and> (\<not> isl r \<longrightarrow> acts = F)"
  proof (cases r1)
    case (Inl e)
    with run m1 have res: "r = Inl e" "s' = s1" by (simp_all add: await_def)
    obtain r0 s0 where "f undefined s = (r0, s0)" by (cases "f undefined s")
    with f [of undefined] obtain Fb where "Fb \<in> F2" by (auto elim: issuesD)
    with a(1) have "Fa @ Fb \<in> {a @ b |a b. a \<in> F1 \<and> b \<in> F2}" by blast
    moreover from a(3) have "prefix a (Fa @ Fb)" by (rule prefix_prefix)
    ultimately show ?thesis using res a(2) by auto
  next
    case (Inr x)
    with run m1 have f1: "f x s1 = (r, s')" by (simp add: await_def)
    from f [of x] f1 obtain Fb b where b: "Fb \<in> F2" "actionsOf s' = actionsOf s1 @ b"
      "prefix b Fb" "\<not> isl r \<longrightarrow> b = Fb"
      by (rule issuesD)
    from Inr a(4) have "a = Fa" by simp
    with a(1) b(1) have "Fa @ Fb \<in> {a @ b |a b. a \<in> F1 \<and> b \<in> F2}" by blast
    moreover from \<open>a = Fa\<close> a(2) b(2) have "actionsOf s' = actionsOf s @ (Fa @ b)" by simp
    moreover from b(3) have "prefix (Fa @ b) (Fa @ Fb)" by simp
    moreover from b(4) have "\<not> isl r \<longrightarrow> Fa @ b = Fa @ Fb" by simp
    ultimately show ?thesis by blast
  qed
qed

lemma issues_resolve: "issues (resolve x) {[]}"
  by (rule issues_nothingI) (simp add: resolve_def)

lemma issues_waitFor: "issues (waitFor A l st n) {[]}"
proof (rule issues_nothingI)
  fix s r s' assume "waitFor A l st n s = (r, s')"
  then show "actionsOf s' = actionsOf s"
    by (cases rule: waitFor_cases [of n A l st s]) auto
qed

lemma issues_perform: "issues (perform A a) {[a]}"
proof (rule issuesI)
  fix s r s' assume run: "perform A a s = (r, s')"
  show "\<exists>F\<in>{[a]}. \<exists>acts. actionsOf s' = actionsOf s @ acts \<and> prefix acts F \<and>
      (\<not> isl r \<longrightarrow> acts = F)"
  proof (cases "rejects A s a")
    case True
    with run have "r = Inl ActionError" "s' = s" by (simp_all add: perform_def)
    then have "actionsOf s' = actionsOf s @ [] \<and> prefix [] [a] \<and> (\<not> isl r \<longrightarrow> [] = [a])"
      by simp
    then show ?thesis by blast
  next
    case False
    with run have "s' = performed a s" by (simp add: perform_def)
    then have "actionsOf s' = actionsOf s @ [a] \<and> prefix [a] [a] \<and> (\<not> isl r \<longrightarrow> [a] = [a])"
      by simp
    then show ?thesis by blast
  qed
qed

lemma issues_clickElement: "issues (clickElement A l n) {[Click l]}"
proof -
  have "issues (clickElement A l n) {a @ b |a b. a \<in> {[]} \<and> b \<in> {[Click l]}}"
    unfolding clickElement_def waitForElement_def click_def
    by (intro issues_await issues_waitFor issues_perform)
  then show ?thesis by simp
qed

lemma issues_fillInput: "issues (fillInput A l t n) {[Clear l, Fill l t]}"
proof -
  have "issues (fillInput A l t n)
      {a @ b |a b. a \<in> {[]} \<and> b \<in> {a @ b |a b. a \<in> {[Clear l]} \<and> b \<in> {[Fill l t]}}}"
    unfolding fillInput_def waitForElement_def clear_def fill_def
    by (intro issues_await issues_waitFor issues_perform)
  then show ?thesis by simp
qed

lemma issues_setRememberMe:
  "issues (setRememberMe A b) {[], [Click rememberMeCheckbox]}"
proof (rule issuesI)
  fix s r s' assume run: "setRememberMe A b s = (r, s')"
  have "actionsOf s' = actionsOf s @ [] \<and> isl r \<or>
      actionsOf s' = actionsOf s @ [] \<and> r = Inr () \<or>
      actionsOf s' = actionsOf s @ [Click rememberMeCheckbox] \<and> r = Inr ()"
    using run by (cases rule: setRememberMe_cases [of A s b]) auto
  then consider (none) "actionsOf s' = actionsOf s @ []" "isl r \<or> r = Inr ()"
    | (click) "actionsOf s' = actionsOf s @ [Click rememberMeCheckbox]" "r = Inr ()"
    by blast
  then show "\<exists>F\<in>{[], [Click rememberMeCheckbox]}. \<exists>acts. actionsOf s' = actionsOf s @ acts \<and>
      prefix acts F \<and> (\<not> isl r \<longrightarrow> acts = F)"
  proof cases
    case none
    then have "actionsOf s' = actionsOf s @ [] \<and> prefix [] ([]::action list) \<and>
        (\<not> isl r \<longrightarrow> [] = ([]::action list))"
      by simp
    then show ?thesis by blast
  next
    case click
    then have "actionsOf s' = actionsOf s @ [Click rememberMeCheckbox] \<and>
        prefix [Click rememberMeCheckbox] [Click rememberMeCheckbox] \<and>
        (\<not> isl r \<longrightarrow> [Click rememberMeCheckbox] = [Click rememberMeCheckbox])"
      by simp
    then show ?thesis by blast
  qed
qed


section \<open>Logging in\<close>

lemma issues_login:
  "issues (login A c)
     {[Clear emailInput, Fill emailInput (email c), Clear passwordInput,
       Fill passwordInput (password c)] @ cb @ [Click loginButton] |cb.
      cb = [] \<or> cb = [Click rememberMeCheckbox] \<and> rememberMe c = Some True}"
proof -
  let ?step = "if rememberMe c = Some True then setRememberMe A True else resolve ()"
  let ?S = "{cb. cb = [] \<or> cb = [Click rememberMeCheckbox] \<and> rememberMe c = Some True}"
  have step: "issues ?step ?S"
  proof (cases "rememberMe c = Some True")
    case True
    with issues_setRememberMe [of A True] show ?thesis
      by (auto intro: issues_mono)
  next
    case False
    with issues_resolve [of "()"] show ?thesis
      by (auto intro: issues_mono)
  qed
  have "issues (login A c)
      {a @ b |a b. a \<in> {[Clear emailInput, Fill emailInput (email c)]} \<and>
         b \<in> {a @ b |a b. a \<in> {[Clear passwordInput, Fill passwordInput (password c)]} \<and>
           b \<in> {a @ b |a b. a \<in> ?S \<and> b \<in> {[Click loginButton]}}}}"
    unfolding login_def enterEmail_def enterPassword_def clickLoginButton_def
    by (intro issues_await issues_fillInput issues_clickElement step)
  then show ?thesis by (rule issues_mono) auto
qed

lemma fillInput_cases [case_names filled fillRejected clearRejected timeout]:
  obtains (filled) k where "k \<le> n"
      "fillInput A l t n s = (Inr (), performed (Fill l t) (performed (Clear l) (later k s)))"
  | (fillRejected) k where "k \<le> n"
      "fillInput A l t n s = (Inl ActionError, performed (Clear l) (later k s))"
  | (clearRejected) k where "k \<le> n" "fillInput A l t n s = (Inl ActionError, later k s)"
  | (timeout) "fillInput A l t n s = (Inl TimeoutError, later n s)"
proof (cases rule: waitFor_cases [of n A l Visible s])
  case (found k)
  show thesis
  proof (cases "rejects A (later k s) (Clear l)")
    case True
    with found(2) have "fillInput A l t n s = (Inl ActionError, later k s)"
      by (simp add: fillInput_def waitForElement_def await_def clear_def perform_def)
    with found(1) show thesis by (intro clearRejected [of k]) simp_all
  next
    case False
    show thesis
    proof (cases "rejects A (performed (Clear l) (later k s)) (Fill l t)")
      case True
      with False found(2)
      have "fillInput A l t n s = (Inl ActionError, performed (Clear l) (later k s))"
        by (simp add: fillInput_def waitForElement_def await_def clear_def fill_def perform_def)
      with found(1) show thesis by (intro fillRejected [of k]) simp_all
    next
      case accepted: False
      with False found(2)
      have "fillInput A l t n s
          = (Inr (), performed (Fill l t) (performed (Clear l) (later k s)))"
        by (simp add: fillInput_def waitForElement_def await_def clear_def fill_def perform_def)
      with found(1) show thesis by (intro filled [of k]) simp_all
    qed
  qed
next
  case timeout
  from timeout(1) have "fillInput A l t n s = (Inl TimeoutError, later n s)"
    by (simp add: fillInput_def waitForElement_def await_def)
  then show thesis by (rule that(4))
qed

text \<open>
  Without a request to be remembered, a login that returns normally ends with the click
  on the login button, on a page on which the checkbox is as it was.
\<close>

lemma login_keeps_checkbox:
  assumes run: "login A c s = (Inr (), s')" and flag: "rememberMe c \<noteq> Some True"
    and time: "\<forall>p k. checkedIn A (later k p) rememberMeCheckbox
      = checkedIn A p rememberMeCheckbox"
    and inputs: "\<forall>p l t. l = emailInput \<or> l = passwordInput \<longrightarrow>
      checkedIn A (performed (Clear l) p) rememberMeCheckbox
        = checkedIn A p rememberMeCheckbox \<and>
      checkedIn A (performed (Fill l t) p) rememberMeCheckbox
        = checkedIn A p rememberMeCheckbox"
  shows "\<exists>q. s' = performed (Click loginButton) q \<and>
    checkedIn A q rememberMeCheckbox = checkedIn A s rememberMeCheckbox"
proof -
  have keep: "checkedIn A s1 rememberMeCheckbox = checkedIn A s0 rememberMeCheckbox"
    if "fillInput A l t 10000 s0 = (Inr (), s1)" "l = emailInput \<or> l = passwordInput"
    for l t s0 s1
  proof (cases rule: fillInput_cases [of 10000 A l t s0])
    case (filled k)
    with that(1) have s1: "s1 = performed (Fill l t) (performed (Clear l) (later k s0))"
      by simp
    from that(2) inputs
    have "checkedIn A (performed (Fill l t) (performed (Clear l) (later k s0)))
        rememberMeCheckbox = checkedIn A (performed (Clear l) (later k s0)) rememberMeCheckbox"
      by blast
    also from that(2) inputs
    have "\<dots> = checkedIn A (later k s0) rememberMeCheckbox" by blast
    also from time have "\<dots> = checkedIn A s0 rememberMeCheckbox" by blast
    finally show ?thesis using s1 by simp
  next
    case (fillRejected k)
    with that(1) show ?thesis by simp
  next
    case (clearRejected k)
    with that(1) show ?thesis by simp
  next
    case timeout
    with that(1) show ?thesis by simp
  qed
  from run flag have run': "await (fillInput A emailInput (email c) 10000)
      (\<lambda>_. await (fillInput A passwordInput (password c) 10000)
        (\<lambda>_. await (resolve ()) (\<lambda>_. clickElement A loginButton 10000))) s = (Inr (), s')"
    by (simp add: login_def enterEmail_def enterPassword_def clickLoginButton_def)
  then obtain u1 s1 where s1: "fillInput A emailInput (email c) 10000 s = (Inr u1, s1)"
    "await (fillInput A passwordInput (password c) 10000)
        (\<lambda>_. await (resolve ()) (\<lambda>_. clickElement A loginButton 10000)) s1 = (Inr (), s')"
    by (rule await_returns)
  from s1(2) obtain u2 s2 where s2: "fillInput A passwordInput (password c) 10000 s1 = (Inr u2, s2)"
    "await (resolve ()) (\<lambda>_. clickElement A loginButton 10000) s2 = (Inr (), s')"
    by (rule await_returns)
  from s2(2) have click: "clickElement A loginButton 10000 s2 = (Inr (), s')"
    by (simp add: await_def resolve_def)
  from s1(1) s2(1) keep
  have same: "checkedIn A s2 rememberMeCheckbox = checkedIn A s rememberMeCheckbox"
    by simp
  show ?thesis
  proof (cases rule: clickElement_cases [of 10000 A s2 loginButton])
    case (clicked k)
    with click have "s' = performed (Click loginButton) (later k s2)" by simp
    moreover from time same
    have "checkedIn A (later k s2) rememberMeCheckbox = checkedIn A s rememberMeCheckbox"
      by simp
    ultimately show ?thesis by blast
  next
    case (rejected k)
    with click show ?thesis by simp
  next
    case timeout
    with click show ?thesis by simp
  qed
qed

lemma fillInput_now:
  assumes "visibleIn A s l" and "\<not> rejects A s (Clear l)"
    and "\<not> rejects A (performed (Clear l) s) (Fill l t)"
  shows "fillInput A l t n s = (Inr (), performed (Fill l t) (performed (Clear l) s))"
proof -
  from assms(1) have "waitFor A l Visible n s = (Inr (), s)"
    by (intro waitFor_now) simp
  with assms(2,3) show ?thesis
    by (simp add: fillInput_def waitForElement_def await_def clear_def fill_def perform_def)
qed

lemma login_standardUser:
  "login (loginFormApp accept) standardUser startPage
     = (Inr (), performed (Click loginButton)
         (performed (Fill passwordInput ''ValidPassword123!'') (performed (Clear passwordInput)
           (performed (Fill emailInput ''test@example.com'') (performed (Clear emailInput)
             startPage)))))"
  by (simp add: login_def enterEmail_def enterPassword_def clickLoginButton_def standardUser_def
      await_def resolve_def fillInput_now clickElement_now)

lemma login_rememberedUser:
  "login (loginFormApp accept) rememberedUser startPage
     = (Inr (), performed (Click loginButton) (performed (Click rememberMeCheckbox)
         (performed (Fill passwordInput ''ValidPassword123!'') (performed (Clear passwordInput)
           (performed (Fill emailInput ''test@example.com'') (performed (Clear emailInput)
             startPage))))))"
proof -
  have ne: "rememberMeCheckbox \<noteq> loginButton"
    by (simp add: rememberMeCheckbox_def loginButton_def)
  then show ?thesis
    by (simp add: login_def enterEmail_def enterPassword_def clickLoginButton_def
        standardUser_def rememberedUser_def setRememberMe_def
        await_def resolve_def fillInput_now clickElement_now isElementChecked_now)
qed

lemma appearsAt_unique:
  assumes "appearsAt A l n s k" and "appearsAt A l n s k'"
  shows "k = k'"
proof (rule ccontr)
  assume "k \<noteq> k'"
  then consider "k < k'" | "k' < k" by linarith
  then show False using assms by cases (auto simp: appearsAt_def)
qed

lemma waitFor_visible_returns:
  assumes "waitFor A l Visible n s = (Inr (), s1)"
  obtains k where "appearsAt A l n s k" "s1 = later k s"
proof (cases rule: waitFor_cases [of n A l Visible s])
  case (found k)
  from found(2) assms have "s1 = later k s" by simp
  moreover from found(1,3,4) have "appearsAt A l n s k" by (simp add: appearsAt_def)
  ultimately show thesis by (rule that [rotated])
next
  case timeout
  with assms show thesis by simp
qed

lemma waitFor_appearsAt:
  assumes "appearsAt A l n s k"
  shows "waitFor A l Visible n s = (Inr (), later k s)"
  using assms by (intro waitFor_first) (simp_all add: appearsAt_def)

lemma fillInput_returns:
  assumes "fillInput A l t n s = (Inr (), s1)"
  obtains k where "appearsAt A l n s k"
    "s1 = performed (Fill l t) (performed (Clear l) (later k s))"
proof -
  from assms obtain u p where w: "waitFor A l Visible n s = (Inr u, p)"
    and rest: "await (clear A l) (\<lambda>_. fill A l t) p = (Inr (), s1)"
    unfolding fillInput_def waitForElement_def by (rule await_returns)
  from w obtain k where k: "appearsAt A l n s k" "p = later k s"
    by (auto elim: waitFor_visible_returns)
  from rest have "s1 = performed (Fill l t) (performed (Clear l) p)"
    by (auto simp: await_def clear_def fill_def perform_def split: if_splits)
  with k show thesis by (intro that [of k]) simp_all
qed

lemma clickElement_returns:
  assumes "clickElement A l n s = (Inr (), s1)"
  obtains k where "appearsAt A l n s k" "s1 = performed (Click l) (later k s)"
proof -
  from assms obtain u p where w: "waitFor A l Visible n s = (Inr u, p)"
    and rest: "click A l p = (Inr (), s1)"
    unfolding clickElement_def waitForElement_def by (rule await_returns)
  from w obtain k where k: "appearsAt A l n s k" "p = later k s"
    by (auto elim: waitFor_visible_returns)
  from rest have "s1 = performed (Click l) p"
    by (auto simp: click_def perform_def split: if_splits)
  with k show thesis by (intro that [of k]) simp_all
qed

lemma setRememberMe_returns:
  assumes "setRememberMe A b s = (Inr (), s1)"
  obtains k where "appearsAt A rememberMeCheckbox 10000 s k"
    "s1 = (if checkedIn A (later k s) rememberMeCheckbox = b then later k s
           else performed (Click rememberMeCheckbox) (later k s))"
proof -
  from assms obtain v p where chk: "isElementChecked A rememberMeCheckbox s = (Inr v, p)"
    and rest: "(if v \<noteq> b then clickElement A rememberMeCheckbox 10000 else resolve ()) p
      = (Inr (), s1)"
    unfolding setRememberMe_def by (rule await_returns)
  from chk obtain u p' where w: "waitFor A rememberMeCheckbox Visible 10000 s = (Inr u, p')"
    and rd: "isChecked A rememberMeCheckbox p' = (Inr v, p)"
    unfolding isElementChecked_def waitForElement_def by (rule await_returns)
  from w obtain k where k: "appearsAt A rememberMeCheckbox 10000 s k" "p' = later k s"
    by (auto elim: waitFor_visible_returns)
  from rd k(2) have p: "p = later k s" "v = checkedIn A (later k s) rememberMeCheckbox"
    by (auto simp: isChecked_def)
  show thesis
  proof (cases "v = b")
    case True
    with rest p have "s1 = later k s" by (simp add: resolve_def)
    with True p k(1) show thesis by (intro that [of k]) simp_all
  next
    case False
    with rest have "clickElement A rememberMeCheckbox 10000 p = (Inr (), s1)" by simp
    then obtain j where j: "appearsAt A rememberMeCheckbox 10000 p j"
      "s1 = performed (Click rememberMeCheckbox) (later j p)"
      by (rule clickElement_returns)
    from k(1) p(1) have "appearsAt A rememberMeCheckbox 10000 p 0"
      by (simp add: appearsAt_def)
    with j(1) have "j = 0" by (rule appearsAt_unique)
    with j(2) p(1) have "s1 = performed (Click rememberMeCheckbox) (later k s)" by simp
    with False p k(1) show thesis by (intro that [of k]) simp_all
  qed
qed

text \<open>Every outcome of \<open>login\<close>, by the step that decides it.\<close>

lemma login_steps:
  assumes "login A c s = (r, s')"
  shows "(\<exists>e. enterEmail A (email c) s = (Inl e, s') \<and> r = Inl e) \<or>
    (\<exists>s1. enterEmail A (email c) s = (Inr (), s1) \<and>
       ((\<exists>e. enterPassword A (password c) s1 = (Inl e, s') \<and> r = Inl e) \<or>
        (\<exists>s2. enterPassword A (password c) s1 = (Inr (), s2) \<and>
           (if rememberMe c = Some True
            then (\<exists>e. setRememberMe A True s2 = (Inl e, s') \<and> r = Inl e) \<or>
                 (\<exists>s3. setRememberMe A True s2 = (Inr (), s3) \<and>
                    clickLoginButton A s3 = (r, s'))
            else clickLoginButton A s2 = (r, s')))))"
proof -
  obtain r1 s1 where e1: "enterEmail A (email c) s = (r1, s1)"
    by (cases "enterEmail A (email c) s")
  show ?thesis
  proof (cases r1)
    case (Inl e)
    with e1 assms have "r = Inl e" "s' = s1" by (simp_all add: login_def await_def)
    with e1 Inl have "\<exists>e. enterEmail A (email c) s = (Inl e, s') \<and> r = Inl e" by simp
    then show ?thesis by blast
  next
    case (Inr u1)
    with e1 have e1': "enterEmail A (email c) s = (Inr (), s1)" by simp
    obtain r2 s2 where e2: "enterPassword A (password c) s1 = (r2, s2)"
      by (cases "enterPassword A (password c) s1")
    show ?thesis
    proof (cases r2)
      case (Inl e)
      with e1' e2 assms have "r = Inl e" "s' = s2" by (simp_all add: login_def await_def)
      with e2 Inl have "\<exists>e. enterPassword A (password c) s1 = (Inl e, s') \<and> r = Inl e"
        by simp
      with e1' show ?thesis by blast
    next
      case (Inr u2)
      with e2 have e2': "enterPassword A (password c) s1 = (Inr (), s2)" by simp
      show ?thesis
      proof (cases "rememberMe c = Some True")
        case False
        with e1' e2' assms have "clickLoginButton A s2 = (r, s')"
          by (simp add: login_def await_def resolve_def)
        with False have "if rememberMe c = Some True
            then (\<exists>e. setRememberMe A True s2 = (Inl e, s') \<and> r = Inl e) \<or>
                 (\<exists>s3. setRememberMe A True s2 = (Inr (), s3) \<and>
                    clickLoginButton A s3 = (r, s'))
            else clickLoginButton A s2 = (r, s')"
          by simp
        with e1' e2' show ?thesis by blast
      next
        case True
        obtain r3 s3 where e3: "setRememberMe A True s2 = (r3, s3)"
          by (cases "setRememberMe A True s2")
        show ?thesis
        proof (cases r3)
          case (Inl e)
          with e1' e2' e3 True assms have "r = Inl e" "s' = s3"
            by (simp_all add: login_def await_def)
          with e3 Inl True have "if rememberMe c = Some True
            then (\<exists>e. setRememberMe A True s2 = (Inl e, s') \<and> r = Inl e) \<or>
                 (\<exists>s3. setRememberMe A True s2 = (Inr (), s3) \<and>
                    clickLoginButton A s3 = (r, s'))
            else clickLoginButton A s2 = (r, s')"
            by simp
          with e1' e2' show ?thesis by blast
        next
          case (Inr u3)
          with e3 have e3': "setRememberMe A True s2 = (Inr (), s3)" by simp
          with e1' e2' True assms have "clickLoginButton A s3 = (r, s')"
            by (simp add: login_def await_def)
          with e3' True have "if rememberMe c = Some True
            then (\<exists>e. setRememberMe A True s2 = (Inl e, s') \<and> r = Inl e) \<or>
                 (\<exists>s3. setRememberMe A True s2 = (Inr (), s3) \<and>
                    clickLoginButton A s3 = (r, s'))
            else clickLoginButton A s2 = (r, s')"
            by auto
          with e1' e2' show ?thesis by blast
        qed
      qed
    qed
  qed
qed

text \<open>The page a login that returns normally ends on.\<close>

lemma login_returns:
  assumes "login A c s = (Inr (), s')"
  shows "\<exists>k1 k2 k4 s1 s2 q.
    appearsAt A emailInput 10000 s k1 \<and>
    s1 = performed (Fill emailInput (email c)) (performed (Clear emailInput) (later k1 s)) \<and>
    appearsAt A passwordInput 10000 s1 k2 \<and>
    s2 = performed (Fill passwordInput (password c))
           (performed (Clear passwordInput) (later k2 s1)) \<and>
    (if rememberMe c = Some True
     then \<exists>k3. appearsAt A rememberMeCheckbox 10000 s2 k3 \<and>
            q = (if checkedIn A (later k3 s2) rememberMeCheckbox then later k3 s2
                 else performed (Click rememberMeCheckbox) (later k3 s2))
     else q = s2) \<and>
    appearsAt A loginButton 10000 q k4 \<and> s' = performed (Click loginButton) (later k4 q)"
proof -
  from login_steps [OF assms] obtain s1 s2 where
    e1: "enterEmail A (email c) s = (Inr (), s1)" and
    e2: "enterPassword A (password c) s1 = (Inr (), s2)" and
    rest: "if rememberMe c = Some True
           then \<exists>s3. setRememberMe A True s2 = (Inr (), s3) \<and>
                  clickLoginButton A s3 = (Inr (), s')
           else clickLoginButton A s2 = (Inr (), s')"
    by (auto split: if_splits)
  from e1 obtain k1 where k1: "appearsAt A emailInput 10000 s k1"
    "s1 = performed (Fill emailInput (email c)) (performed (Clear emailInput) (later k1 s))"
    unfolding enterEmail_def by (rule fillInput_returns)
  from e2 obtain k2 where k2: "appearsAt A passwordInput 10000 s1 k2"
    "s2 = performed (Fill passwordInput (password c))
           (performed (Clear passwordInput) (later k2 s1))"
    unfolding enterPassword_def by (rule fillInput_returns)
  have "\<exists>q k4. (if rememberMe c = Some True
     then \<exists>k3. appearsAt A rememberMeCheckbox 10000 s2 k3 \<and>
            q = (if checkedIn A (later k3 s2) rememberMeCheckbox then later k3 s2
                 else performed (Click rememberMeCheckbox) (later k3 s2))
     else q = s2) \<and>
    appearsAt A loginButton 10000 q k4 \<and> s' = performed (Click loginButton) (later k4 q)"
  proof (cases "rememberMe c = Some True")
    case False
    with rest have "clickElement A loginButton 10000 s2 = (Inr (), s')"
      by (simp add: clickLoginButton_def)
    then obtain k4 where "appearsAt A loginButton 10000 s2 k4"
      "s' = performed (Click loginButton) (later k4 s2)"
      by (rule clickElement_returns)
    with False have "(if rememberMe c = Some True
     then \<exists>k3. appearsAt A rememberMeCheckbox 10000 s2 k3 \<and>
            s2 = (if checkedIn A (later k3 s2) rememberMeCheckbox then later k3 s2
                 else performed (Click rememberMeCheckbox) (later k3 s2))
     else s2 = s2) \<and>
    appearsAt A loginButton 10000 s2 k4 \<and> s' = performed (Click loginButton) (later k4 s2)"
      by simp
    then show ?thesis by blast
  next
    case True
    with rest obtain s3 where s3: "setRememberMe A True s2 = (Inr (), s3)"
      "clickElement A loginButton 10000 s3 = (Inr (), s')"
      by (auto simp: clickLoginButton_def)
    from s3(1) obtain k3 where k3: "appearsAt A rememberMeCheckbox 10000 s2 k3"
      "s3 = (if checkedIn A (later k3 s2) rememberMeCheckbox = True then later k3 s2
           else performed (Click rememberMeCheckbox) (later k3 s2))"
      by (rule setRememberMe_returns)
    from s3(2) obtain k4 where k4: "appearsAt A loginButton 10000 s3 k4"
      "s' = performed (Click loginButton) (later k4 s3)"
      by (rule clickElement_returns)
    from k3 have "\<exists>k3. appearsAt A rememberMeCheckbox 10000 s2 k3 \<and>
            s3 = (if checkedIn A (later k3 s2) rememberMeCheckbox then later k3 s2
                 else performed (Click rememberMeCheckbox) (later k3 s2))"
      by auto
    with True have "if rememberMe c = Some True
     then \<exists>k3. appearsAt A rememberMeCheckbox 10000 s2 k3 \<and>
            s3 = (if checkedIn A (later k3 s2) rememberMeCheckbox then later k3 s2
                 else performed (Click rememberMeCheckbox) (later k3 s2))
     else s3 = s2"
      by simp
    with k4 show ?thesis by blast
  qed
  with k1 k2 show ?thesis by blast
qed

text \<open>
  With a request to be remembered, on an application where time and the filling of the
  two inputs leave the checkbox alone, a login that returns normally has clicked the
  checkbox exactly if it was unchecked; where a click flips it, the login button is
  clicked on a page on which it is checked.
\<close>

lemma login_sets_checkbox:
  assumes run: "login A c s = (Inr (), s')" and flag: "rememberMe c = Some True"
    and time: "\<forall>p k. checkedIn A (later k p) rememberMeCheckbox
      = checkedIn A p rememberMeCheckbox"
    and inputs: "\<forall>p l t. l = emailInput \<or> l = passwordInput \<longrightarrow>
      checkedIn A (performed (Clear l) p) rememberMeCheckbox
        = checkedIn A p rememberMeCheckbox \<and>
      checkedIn A (performed (Fill l t) p) rememberMeCheckbox
        = checkedIn A p rememberMeCheckbox"
  shows "actionsOf s' = actionsOf s @
      [Clear emailInput, Fill emailInput (email c), Clear passwordInput,
       Fill passwordInput (password c)] @
      (if checkedIn A s rememberMeCheckbox then [] else [Click rememberMeCheckbox]) @
      [Click loginButton] \<and>
    ((\<forall>p. checkedIn A (performed (Click rememberMeCheckbox) p) rememberMeCheckbox
        = (\<not> checkedIn A p rememberMeCheckbox)) \<longrightarrow>
     (\<exists>q. s' = performed (Click loginButton) q \<and> checkedIn A q rememberMeCheckbox))"
proof -
  from login_returns [OF run] flag obtain k1 k2 k3 k4 s1 s2 q where
    s1: "s1 = performed (Fill emailInput (email c)) (performed (Clear emailInput) (later k1 s))"
    and s2: "s2 = performed (Fill passwordInput (password c))
           (performed (Clear passwordInput) (later k2 s1))"
    and q: "q = (if checkedIn A (later k3 s2) rememberMeCheckbox then later k3 s2
                 else performed (Click rememberMeCheckbox) (later k3 s2))"
    and s': "s' = performed (Click loginButton) (later k4 q)"
    by auto
  have keep: "checkedIn A (performed (Fill l t) (performed (Clear l) (later k p)))
      rememberMeCheckbox = checkedIn A p rememberMeCheckbox"
    if "l = emailInput \<or> l = passwordInput" for l t k p
  proof -
    from that inputs
    have "checkedIn A (performed (Fill l t) (performed (Clear l) (later k p)))
        rememberMeCheckbox = checkedIn A (performed (Clear l) (later k p)) rememberMeCheckbox"
      by blast
    also from that inputs
    have "\<dots> = checkedIn A (later k p) rememberMeCheckbox" by blast
    also from time have "\<dots> = checkedIn A p rememberMeCheckbox" by blast
    finally show ?thesis .
  qed
  from s1 keep [of emailInput "email c" k1 s]
  have c1: "checkedIn A s1 rememberMeCheckbox = checkedIn A s rememberMeCheckbox" by simp
  from s2 keep [of passwordInput "password c" k2 s1] c1
  have c2: "checkedIn A s2 rememberMeCheckbox = checkedIn A s rememberMeCheckbox" by simp
  from time c2
  have c3: "checkedIn A (later k3 s2) rememberMeCheckbox = checkedIn A s rememberMeCheckbox"
    by simp
  from s1 s2 q s' c3 have acts: "actionsOf s' = actionsOf s @
      [Clear emailInput, Fill emailInput (email c), Clear passwordInput,
       Fill passwordInput (password c)] @
      (if checkedIn A s rememberMeCheckbox then [] else [Click rememberMeCheckbox]) @
      [Click loginButton]"
    by simp
  have "\<exists>q. s' = performed (Click loginButton) q \<and> checkedIn A q rememberMeCheckbox"
    if toggle: "\<forall>p. checkedIn A (performed (Click rememberMeCheckbox) p) rememberMeCheckbox
        = (\<not> checkedIn A p rememberMeCheckbox)"
  proof -
    have "checkedIn A q rememberMeCheckbox"
    proof (cases "checkedIn A (later k3 s2) rememberMeCheckbox")
      case True
      with q show ?thesis by simp
    next
      case False
      with q toggle show ?thesis by simp
    qed
    with time have "checkedIn A (later k4 q) rememberMeCheckbox" by simp
    with s' show ?thesis by blast
  qed
  with acts show ?thesis by blast
qed

lemma login_rememberedUser_checked:
  "login (loginFormApp accept) rememberedUser (performed (Click rememberMeCheckbox) startPage)
     = (Inr (), performed (Click loginButton)
         (performed (Fill passwordInput ''ValidPassword123!'') (performed (Clear passwordInput)
           (performed (Fill emailInput ''test@example.com'') (performed (Clear emailInput)
             (performed (Click rememberMeCheckbox) startPage))))))"
  by (simp add: login_def enterEmail_def enterPassword_def clickLoginButton_def
      standardUser_def rememberedUser_def setRememberMe_def
      await_def resolve_def fillInput_now clickElement_now isElementChecked_now)

text \<open>
  Claim C7. For every credentials value, \<^verbatim>\<open>login(credentials)\<close> runs \<^verbatim>\<open>enterEmail\<close>,
  then \<^verbatim>\<open>enterPassword\<close>, then \<^verbatim>\<open>setRememberMe(true)\<close> exactly if
  \<^verbatim>\<open>credentials.rememberMe\<close> is true, then the click on the login button, and the first
  step that fails decides the outcome. The actions it issues are, in this order, the
  clearing and filling of the email input, the clearing and filling of the password
  input, a click on the remember-me checkbox only if \<^verbatim>\<open>rememberMe\<close> is true, and the
  click on the login button last: a run that fails has issued a prefix of that sequence,
  a run that returns normally all of it. A run that returns normally ends on the page
  given by the moments at which the four controls are first visible; with \<^verbatim>\<open>rememberMe\<close>
  true the checkbox has been clicked exactly if it read unchecked when it became visible,
  and without it the checkbox is neither read nor clicked. On an application where time
  and the filling of the two inputs leave the checkbox alone: with \<^verbatim>\<open>rememberMe\<close> true
  the checkbox is clicked exactly if it was unchecked before the login, and where a click
  flips it the login button is clicked on a page on which it is checked; with
  \<^verbatim>\<open>rememberMe\<close> not set the login button is clicked on a page on which the checkbox is
  in the state it was in before.
\<close>

theorem login_sequence:
  assumes "login A c s = (r, s')"
  shows "(\<exists>cb acts. (cb = [] \<or> cb = [Click rememberMeCheckbox] \<and> rememberMe c = Some True) \<and>
      actionsOf s' = actionsOf s @ acts \<and>
      prefix acts ([Clear emailInput, Fill emailInput (email c), Clear passwordInput,
        Fill passwordInput (password c)] @ cb @ [Click loginButton]) \<and>
      (r = Inr () \<longrightarrow> acts = [Clear emailInput, Fill emailInput (email c), Clear passwordInput,
        Fill passwordInput (password c)] @ cb @ [Click loginButton])) \<and>
    (r = Inr () \<and> rememberMe c \<noteq> Some True \<and>
     (\<forall>p k. checkedIn A (later k p) rememberMeCheckbox = checkedIn A p rememberMeCheckbox) \<and>
     (\<forall>p l t. l = emailInput \<or> l = passwordInput \<longrightarrow>
        checkedIn A (performed (Clear l) p) rememberMeCheckbox
          = checkedIn A p rememberMeCheckbox \<and>
        checkedIn A (performed (Fill l t) p) rememberMeCheckbox
          = checkedIn A p rememberMeCheckbox) \<longrightarrow>
     (\<exists>q. s' = performed (Click loginButton) q \<and>
        checkedIn A q rememberMeCheckbox = checkedIn A s rememberMeCheckbox)) \<and>
    ((\<exists>e. enterEmail A (email c) s = (Inl e, s') \<and> r = Inl e) \<or>
     (\<exists>s1. enterEmail A (email c) s = (Inr (), s1) \<and>
        ((\<exists>e. enterPassword A (password c) s1 = (Inl e, s') \<and> r = Inl e) \<or>
         (\<exists>s2. enterPassword A (password c) s1 = (Inr (), s2) \<and>
            (if rememberMe c = Some True
             then (\<exists>e. setRememberMe A True s2 = (Inl e, s') \<and> r = Inl e) \<or>
                  (\<exists>s3. setRememberMe A True s2 = (Inr (), s3) \<and>
                     clickLoginButton A s3 = (r, s'))
             else clickLoginButton A s2 = (r, s')))))) \<and>
    (r = Inr () \<longrightarrow>
     (\<exists>k1 k2 k4 s1 s2 q.
        appearsAt A emailInput 10000 s k1 \<and>
        s1 = performed (Fill emailInput (email c))
               (performed (Clear emailInput) (later k1 s)) \<and>
        appearsAt A passwordInput 10000 s1 k2 \<and>
        s2 = performed (Fill passwordInput (password c))
               (performed (Clear passwordInput) (later k2 s1)) \<and>
        (if rememberMe c = Some True
         then \<exists>k3. appearsAt A rememberMeCheckbox 10000 s2 k3 \<and>
                q = (if checkedIn A (later k3 s2) rememberMeCheckbox then later k3 s2
                     else performed (Click rememberMeCheckbox) (later k3 s2))
         else q = s2) \<and>
        appearsAt A loginButton 10000 q k4 \<and>
        s' = performed (Click loginButton) (later k4 q))) \<and>
    (r = Inr () \<and> rememberMe c = Some True \<and>
     (\<forall>p k. checkedIn A (later k p) rememberMeCheckbox = checkedIn A p rememberMeCheckbox) \<and>
     (\<forall>p l t. l = emailInput \<or> l = passwordInput \<longrightarrow>
        checkedIn A (performed (Clear l) p) rememberMeCheckbox
          = checkedIn A p rememberMeCheckbox \<and>
        checkedIn A (performed (Fill l t) p) rememberMeCheckbox
          = checkedIn A p rememberMeCheckbox) \<longrightarrow>
     actionsOf s' = actionsOf s @
       [Clear emailInput, Fill emailInput (email c), Clear passwordInput,
        Fill passwordInput (password c)] @
       (if checkedIn A s rememberMeCheckbox then [] else [Click rememberMeCheckbox]) @
       [Click loginButton] \<and>
     ((\<forall>p. checkedIn A (performed (Click rememberMeCheckbox) p) rememberMeCheckbox
         = (\<not> checkedIn A p rememberMeCheckbox)) \<longrightarrow>
      (\<exists>q. s' = performed (Click loginButton) q \<and> checkedIn A q rememberMeCheckbox)))"
proof (intro conjI)
  from issues_login [of A c] assms
  obtain F acts where F: "F \<in> {[Clear emailInput, Fill emailInput (email c), Clear passwordInput,
       Fill passwordInput (password c)] @ cb @ [Click loginButton] |cb.
      cb = [] \<or> cb = [Click rememberMeCheckbox] \<and> rememberMe c = Some True}"
    "actionsOf s' = actionsOf s @ acts" "prefix acts F" "\<not> isl r \<longrightarrow> acts = F"
    by (rule issuesD)
  from F(1) obtain cb where cb: "cb = [] \<or> cb = [Click rememberMeCheckbox] \<and> rememberMe c = Some True"
    "F = [Clear emailInput, Fill emailInput (email c), Clear passwordInput,
       Fill passwordInput (password c)] @ cb @ [Click loginButton]"
    by blast
  from F(4) have "r = Inr () \<longrightarrow> acts = F" by auto
  with cb F(2,3) show "\<exists>cb acts. (cb = [] \<or> cb = [Click rememberMeCheckbox] \<and> rememberMe c = Some True) \<and>
      actionsOf s' = actionsOf s @ acts \<and>
      prefix acts ([Clear emailInput, Fill emailInput (email c), Clear passwordInput,
        Fill passwordInput (password c)] @ cb @ [Click loginButton]) \<and>
      (r = Inr () \<longrightarrow> acts = [Clear emailInput, Fill emailInput (email c), Clear passwordInput,
        Fill passwordInput (password c)] @ cb @ [Click loginButton])"
    by blast
next
  show "r = Inr () \<and> rememberMe c \<noteq> Some True \<and>
     (\<forall>p k. checkedIn A (later k p) rememberMeCheckbox = checkedIn A p rememberMeCheckbox) \<and>
     (\<forall>p l t. l = emailInput \<or> l = passwordInput \<longrightarrow>
        checkedIn A (performed (Clear l) p) rememberMeCheckbox
          = checkedIn A p rememberMeCheckbox \<and>
        checkedIn A (performed (Fill l t) p) rememberMeCheckbox
          = checkedIn A p rememberMeCheckbox) \<longrightarrow>
     (\<exists>q. s' = performed (Click loginButton) q \<and>
        checkedIn A q rememberMeCheckbox = checkedIn A s rememberMeCheckbox)"
    using assms login_keeps_checkbox [of A c s s'] by blast
next
  show "(\<exists>e. enterEmail A (email c) s = (Inl e, s') \<and> r = Inl e) \<or>
     (\<exists>s1. enterEmail A (email c) s = (Inr (), s1) \<and>
        ((\<exists>e. enterPassword A (password c) s1 = (Inl e, s') \<and> r = Inl e) \<or>
         (\<exists>s2. enterPassword A (password c) s1 = (Inr (), s2) \<and>
            (if rememberMe c = Some True
             then (\<exists>e. setRememberMe A True s2 = (Inl e, s') \<and> r = Inl e) \<or>
                  (\<exists>s3. setRememberMe A True s2 = (Inr (), s3) \<and>
                     clickLoginButton A s3 = (r, s'))
             else clickLoginButton A s2 = (r, s')))))"
    using assms by (rule login_steps)
next
  show "r = Inr () \<longrightarrow>
     (\<exists>k1 k2 k4 s1 s2 q.
        appearsAt A emailInput 10000 s k1 \<and>
        s1 = performed (Fill emailInput (email c))
               (performed (Clear emailInput) (later k1 s)) \<and>
        appearsAt A passwordInput 10000 s1 k2 \<and>
        s2 = performed (Fill passwordInput (password c))
               (performed (Clear passwordInput) (later k2 s1)) \<and>
        (if rememberMe c = Some True
         then \<exists>k3. appearsAt A rememberMeCheckbox 10000 s2 k3 \<and>
                q = (if checkedIn A (later k3 s2) rememberMeCheckbox then later k3 s2
                     else performed (Click rememberMeCheckbox) (later k3 s2))
         else q = s2) \<and>
        appearsAt A loginButton 10000 q k4 \<and>
        s' = performed (Click loginButton) (later k4 q))"
    using assms login_returns [of A c s s'] by blast
next
  show "r = Inr () \<and> rememberMe c = Some True \<and>
     (\<forall>p k. checkedIn A (later k p) rememberMeCheckbox = checkedIn A p rememberMeCheckbox) \<and>
     (\<forall>p l t. l = emailInput \<or> l = passwordInput \<longrightarrow>
        checkedIn A (performed (Clear l) p) rememberMeCheckbox
          = checkedIn A p rememberMeCheckbox \<and>
        checkedIn A (performed (Fill l t) p) rememberMeCheckbox
          = checkedIn A p rememberMeCheckbox) \<longrightarrow>
     actionsOf s' = actionsOf s @
       [Clear emailInput, Fill emailInput (email c), Clear passwordInput,
        Fill passwordInput (password c)] @
       (if checkedIn A s rememberMeCheckbox then [] else [Click rememberMeCheckbox]) @
       [Click loginButton] \<and>
     ((\<forall>p. checkedIn A (performed (Click rememberMeCheckbox) p) rememberMeCheckbox
         = (\<not> checkedIn A p rememberMeCheckbox)) \<longrightarrow>
      (\<exists>q. s' = performed (Click loginButton) q \<and> checkedIn A q rememberMeCheckbox))"
    using assms login_sets_checkbox [of A c s s'] by blast
qed

theorem login_sequence_witness:
  "actionsOf (snd (login (loginFormApp True) standardUser startPage))
     = [Clear emailInput, Fill emailInput ''test@example.com'', Clear passwordInput,
        Fill passwordInput ''ValidPassword123!'', Click loginButton] \<and>
   (\<exists>q. snd (login (loginFormApp True) standardUser startPage)
       = performed (Click loginButton) q \<and>
      \<not> checkedIn (loginFormApp True) q rememberMeCheckbox) \<and>
   actionsOf (snd (login (loginFormApp True) rememberedUser startPage))
     = [Clear emailInput, Fill emailInput ''test@example.com'', Clear passwordInput,
        Fill passwordInput ''ValidPassword123!'', Click rememberMeCheckbox, Click loginButton] \<and>
   (\<exists>q. snd (login (loginFormApp True) rememberedUser startPage)
       = performed (Click loginButton) q \<and>
      checkedIn (loginFormApp True) q rememberMeCheckbox) \<and>
   actionsOf (snd (login (loginFormApp True) rememberedUser
       (performed (Click rememberMeCheckbox) startPage)))
     = [Click rememberMeCheckbox, Clear emailInput, Fill emailInput ''test@example.com'',
        Clear passwordInput, Fill passwordInput ''ValidPassword123!'', Click loginButton] \<and>
   (\<exists>q. snd (login (loginFormApp True) rememberedUser
         (performed (Click rememberMeCheckbox) startPage))
       = performed (Click loginButton) q \<and>
      checkedIn (loginFormApp True) q rememberMeCheckbox)"
proof -
  let ?A = "loginFormApp True"
  let ?p = "performed (Click rememberMeCheckbox) startPage"
  let ?s = "snd (login ?A standardUser startPage)"
  let ?u = "snd (login ?A rememberedUser startPage)"
  let ?v = "snd (login ?A rememberedUser ?p)"
  have fresh: "actionsOf startPage = []"
    by (simp add: actionsOf_def startPage_def)
  have run: "login ?A standardUser startPage = (Inr (), ?s)"
    by (simp add: login_standardUser)
  have runu: "login ?A rememberedUser startPage = (Inr (), ?u)"
    by (simp add: login_rememberedUser)
  have runv: "login ?A rememberedUser ?p = (Inr (), ?v)"
    by (simp add: login_rememberedUser_checked)
  have flag: "rememberMe standardUser \<noteq> Some True"
    by (simp add: standardUser_def)
  have flagu: "rememberMe rememberedUser = Some True"
    "email rememberedUser = ''test@example.com''"
    "password rememberedUser = ''ValidPassword123!''"
    by (simp_all add: rememberedUser_def standardUser_def)
  have time: "\<forall>p k. checkedIn ?A (later k p) rememberMeCheckbox
      = checkedIn ?A p rememberMeCheckbox"
    by simp
  have inputs: "\<forall>p l t. l = emailInput \<or> l = passwordInput \<longrightarrow>
      checkedIn ?A (performed (Clear l) p) rememberMeCheckbox
        = checkedIn ?A p rememberMeCheckbox \<and>
      checkedIn ?A (performed (Fill l t) p) rememberMeCheckbox
        = checkedIn ?A p rememberMeCheckbox"
    by simp
  have toggle: "\<forall>p. checkedIn ?A (performed (Click rememberMeCheckbox) p) rememberMeCheckbox
      = (\<not> checkedIn ?A p rememberMeCheckbox)"
    by simp
  note seq = login_sequence [OF run]
  from seq flag obtain acts where acts: "actionsOf ?s = actionsOf startPage @ acts"
    "acts = [Clear emailInput, Fill emailInput (email standardUser), Clear passwordInput,
        Fill passwordInput (password standardUser)] @ [] @ [Click loginButton]"
    by auto
  from seq flag time inputs
  have "\<exists>q. ?s = performed (Click loginButton) q \<and>
      checkedIn ?A q rememberMeCheckbox = checkedIn ?A startPage rememberMeCheckbox"
    by blast
  then have kept: "\<exists>q. ?s = performed (Click loginButton) q \<and>
      \<not> checkedIn ?A q rememberMeCheckbox"
    by simp
  from acts fresh have one: "actionsOf ?s = [Clear emailInput, Fill emailInput ''test@example.com'',
      Clear passwordInput, Fill passwordInput ''ValidPassword123!'', Click loginButton]"
    by (simp add: standardUser_def)
  from login_sequence [OF runu] flagu(1) time inputs toggle
  have "actionsOf ?u = actionsOf startPage @
       [Clear emailInput, Fill emailInput (email rememberedUser), Clear passwordInput,
        Fill passwordInput (password rememberedUser)] @
       (if checkedIn ?A startPage rememberMeCheckbox then [] else [Click rememberMeCheckbox]) @
       [Click loginButton] \<and>
      (\<exists>q. ?u = performed (Click loginButton) q \<and> checkedIn ?A q rememberMeCheckbox)"
    by blast
  with fresh flagu have two: "actionsOf ?u
     = [Clear emailInput, Fill emailInput ''test@example.com'', Clear passwordInput,
        Fill passwordInput ''ValidPassword123!'', Click rememberMeCheckbox, Click loginButton] \<and>
      (\<exists>q. ?u = performed (Click loginButton) q \<and> checkedIn ?A q rememberMeCheckbox)"
    by simp
  from login_sequence [OF runv] flagu(1) time inputs toggle
  have "actionsOf ?v = actionsOf ?p @
       [Clear emailInput, Fill emailInput (email rememberedUser), Clear passwordInput,
        Fill passwordInput (password rememberedUser)] @
       (if checkedIn ?A ?p rememberMeCheckbox then [] else [Click rememberMeCheckbox]) @
       [Click loginButton] \<and>
      (\<exists>q. ?v = performed (Click loginButton) q \<and> checkedIn ?A q rememberMeCheckbox)"
    by blast
  with fresh flagu have three: "actionsOf ?v
     = [Click rememberMeCheckbox, Clear emailInput, Fill emailInput ''test@example.com'',
        Clear passwordInput, Fill passwordInput ''ValidPassword123!'', Click loginButton] \<and>
      (\<exists>q. ?v = performed (Click loginButton) q \<and> checkedIn ?A q rememberMeCheckbox)"
    by simp
  from one kept two three show ?thesis by blast
qed


section \<open>Attempting a login\<close>

lemma waitForFunction_cases [case_names held timeout]:
  obtains (held) k where "k \<le> n" "waitForFunction f arg n s = (Inr (), later k s)"
      "f (later k s) arg" "\<forall>j<k. \<not> f (later j s) arg"
  | (timeout) "waitForFunction f arg n s = (Inl TimeoutError, later n s)"
      "\<forall>j\<le>n. \<not> f (later j s) arg"
proof (cases rule: poll_cases [of n "\<lambda>p. f p arg" s])
  case (found k)
  from found(2) have "waitForFunction f arg n s = (Inr (), later k s)"
    by (simp add: waitForFunction_def)
  then show thesis using found(1,3,4) that(1) by blast
next
  case never
  from never(1) have "waitForFunction f arg n s = (Inl TimeoutError, later n s)"
    by (simp add: waitForFunction_def)
  then show thesis using never(2) that(2) by blast
qed

lemma waitForFunction_now:
  assumes "f s arg"
  shows "waitForFunction f arg n s = (Inr (), s)"
proof -
  from assms have "poll (\<lambda>p. f p arg) n s = (True, s)" by (intro poll_now)
  then show ?thesis by (simp add: waitForFunction_def)
qed









section \<open>Logging out\<close>

lemma issues_openProfileDropdown: "issues (openProfileDropdown A) {[Click profileDropdown]}"
proof -
  have "issues (openProfileDropdown A) {a @ b |a b. a \<in> {[Click profileDropdown]} \<and> b \<in> {[]}}"
    unfolding openProfileDropdown_def waitForElement_def
    by (intro issues_await issues_clickElement issues_waitFor)
  then show ?thesis by simp
qed

text \<open>
  The actions of \<open>clickLogout\<close>: the dropdown is clicked exactly when the probe of the
  logout button is negative.
\<close>

lemma clickLogout_actions:
  assumes "clickLogout A s = (r, s1)"
  shows "\<exists>acts. actionsOf s1 = actionsOf s @ acts \<and>
    (if \<exists>j\<le>1000. visibleIn A (later j s) logoutButton
     then prefix acts [Click logoutButton] \<and> (\<not> isl r \<longrightarrow> acts = [Click logoutButton])
     else prefix acts [Click profileDropdown, Click logoutButton] \<and>
       (\<not> isl r \<longrightarrow> acts = [Click profileDropdown, Click logoutButton]))"
proof (cases rule: isElementVisible_cases [of A logoutButton s])
  case (seen k)
  from seen(1,3) have vis: "\<exists>j\<le>1000. visibleIn A (later j s) logoutButton" by blast
  from seen(2) assms have "clickElement A logoutButton 10000 (later k s) = (r, s1)"
    by (simp add: clickLogout_def await_def resolve_def)
  with issues_clickElement [of A logoutButton 10000]
  obtain F acts where "F \<in> {[Click logoutButton]}" "actionsOf s1 = actionsOf (later k s) @ acts"
    "prefix acts F" "\<not> isl r \<longrightarrow> acts = F"
    by (rule issuesD)
  with vis show ?thesis by auto
next
  case unseen
  from unseen(2) have vis: "\<not> (\<exists>j\<le>1000. visibleIn A (later j s) logoutButton)" by simp
  from unseen(1) assms have run: "await (openProfileDropdown A)
      (\<lambda>_. clickElement A logoutButton 10000) (later 1000 s) = (r, s1)"
    by (simp add: clickLogout_def await_def)
  have "issues (await (openProfileDropdown A) (\<lambda>_. clickElement A logoutButton 10000))
      {a @ b |a b. a \<in> {[Click profileDropdown]} \<and> b \<in> {[Click logoutButton]}}"
    by (intro issues_await issues_openProfileDropdown issues_clickElement)
  from this run obtain F acts where
    "F \<in> {a @ b |a b. a \<in> {[Click profileDropdown]} \<and> b \<in> {[Click logoutButton]}}"
    "actionsOf s1 = actionsOf (later 1000 s) @ acts" "prefix acts F" "\<not> isl r \<longrightarrow> acts = F"
    by (rule issuesD)
  with vis show ?thesis by auto
qed

lemma dashboardApp_simps [simp]:
  "visibleIn (dashboardApp direct) p l \<longleftrightarrow> l = profileDropdown \<or>
     (l = logoutButton \<and> (direct \<or> 0 < clicksOn profileDropdown p))"
  "pathnameIn (dashboardApp direct) p
     = (if 0 < clicksOn logoutButton p then ''/login'' else ''/dashboard'')"
  "\<not> rejects (dashboardApp direct) p a"
  by (simp_all add: dashboardApp_def blankApp_def)

lemma dashboard_locators [simp]: "logoutButton \<noteq> profileDropdown" "profileDropdown \<noteq> logoutButton"
  by (simp_all add: logoutButton_def profileDropdown_def)

lemma logout_direct:
  "logout (dashboardApp True) startPage = (Inr (), performed (Click logoutButton) startPage)"
proof -
  let ?A = "dashboardApp True"
  have "isElementVisible ?A logoutButton startPage = (Inr True, later 0 startPage)"
    by (intro isElementVisible_first) simp_all
  then have click: "clickLogout ?A startPage = (Inr (), performed (Click logoutButton) startPage)"
    by (simp add: clickLogout_def await_def resolve_def clickElement_now)
  have "pathnameExcludes ?A (performed (Click logoutButton) startPage) URLs_DASHBOARD"
    by (simp add: pathnameExcludes_def URLs_DASHBOARD_def)
  then have "waitForFunction (pathnameExcludes ?A) URLs_DASHBOARD TIMEOUTS_MEDIUM
      (performed (Click logoutButton) startPage)
      = (Inr (), performed (Click logoutButton) startPage)"
    by (rule waitForFunction_now)
  with click show ?thesis by (simp add: logout_def await_def)
qed

lemma logout_dropdown:
  "logout (dashboardApp False) startPage
     = (Inr (), performed (Click logoutButton)
         (performed (Click profileDropdown) (later 1000 startPage)))"
proof -
  let ?A = "dashboardApp False"
  let ?s1 = "performed (Click profileDropdown) (later 1000 startPage)"
  have "isElementVisible ?A logoutButton startPage = (Inr False, later 1000 startPage)"
    by (intro isElementVisible_never) simp
  moreover have "waitFor ?A logoutButton Visible 5000 ?s1 = (Inr (), ?s1)"
    by (intro waitFor_now) simp
  ultimately have click: "clickLogout ?A startPage = (Inr (), performed (Click logoutButton) ?s1)"
    by (simp add: clickLogout_def openProfileDropdown_def waitForElement_def TIMEOUTS_SHORT_def
        await_def resolve_def clickElement_now)
  have "pathnameExcludes ?A (performed (Click logoutButton) ?s1) URLs_DASHBOARD"
    by (simp add: pathnameExcludes_def URLs_DASHBOARD_def)
  then have "waitForFunction (pathnameExcludes ?A) URLs_DASHBOARD TIMEOUTS_MEDIUM
      (performed (Click logoutButton) ?s1) = (Inr (), performed (Click logoutButton) ?s1)"
    by (rule waitForFunction_now)
  with click show ?thesis by (simp add: logout_def await_def)
qed

text \<open>
  Claim C9. \<^verbatim>\<open>logout()\<close> clicks the logout control and then polls, for 10000 ms at
  most, until the path of the current location no longer contains \<^verbatim>\<open>/dashboard\<close>:
  whenever it returns normally the path does not contain it, and when the path still
  contains it after 10000 ms the call fails with a timeout. This holds whether the logout
  control was directly visible or had to be revealed: \<^verbatim>\<open>clickLogout\<close> clicks the
  profile dropdown first exactly when the logout control is not visible within the
  soft-probe window of 1000 ms, and the logout control is clicked last in both cases.
\<close>

theorem logout_contract:
  assumes "logout A s = (r, s')"
  shows "((\<exists>e. clickLogout A s = (Inl e, s') \<and> r = Inl e) \<or>
      (\<exists>s1 k. clickLogout A s = (Inr (), s1) \<and> k \<le> 10000 \<and> s' = later k s1 \<and>
         (\<forall>j<k. stringIncludes (pathnameIn A (later j s1)) ''/dashboard'') \<and>
         (if stringIncludes (pathnameIn A s') ''/dashboard''
          then r = Inl TimeoutError \<and> k = 10000 else r = Inr ()))) \<and>
    (\<exists>acts. actionsOf s' = actionsOf s @ acts \<and>
       (if \<exists>j\<le>1000. visibleIn A (later j s) logoutButton
        then prefix acts [Click logoutButton] \<and> (r = Inr () \<longrightarrow> acts = [Click logoutButton])
        else prefix acts [Click profileDropdown, Click logoutButton] \<and>
          (r = Inr () \<longrightarrow> acts = [Click profileDropdown, Click logoutButton])))"
proof -
  obtain r1 s1 where c: "clickLogout A s = (r1, s1)" by (cases "clickLogout A s")
  note acts = clickLogout_actions [OF c]
  show ?thesis
  proof (cases r1)
    case (Inl e)
    with c assms have res: "r = Inl e" "s' = s1" by (simp_all add: logout_def await_def)
    with c Inl have "\<exists>e. clickLogout A s = (Inl e, s') \<and> r = Inl e" by simp
    moreover from acts res Inl
    have "\<exists>acts. actionsOf s' = actionsOf s @ acts \<and>
       (if \<exists>j\<le>1000. visibleIn A (later j s) logoutButton
        then prefix acts [Click logoutButton] \<and> (r = Inr () \<longrightarrow> acts = [Click logoutButton])
        else prefix acts [Click profileDropdown, Click logoutButton] \<and>
          (r = Inr () \<longrightarrow> acts = [Click profileDropdown, Click logoutButton]))"
      by (auto split: if_splits)
    ultimately show ?thesis by blast
  next
    case (Inr u)
    with c have c1: "clickLogout A s = (Inr (), s1)" by simp
    from assms c1
    have run: "waitForFunction (pathnameExcludes A) URLs_DASHBOARD TIMEOUTS_MEDIUM s1 = (r, s')"
      by (simp add: logout_def await_def)
    have poll: "\<exists>k. k \<le> 10000 \<and> s' = later k s1 \<and>
         (\<forall>j<k. stringIncludes (pathnameIn A (later j s1)) ''/dashboard'') \<and>
         (if stringIncludes (pathnameIn A s') ''/dashboard''
          then r = Inl TimeoutError \<and> k = 10000 else r = Inr ())"
    proof (cases rule: waitForFunction_cases [of 10000 "pathnameExcludes A" URLs_DASHBOARD s1])
      case (held k)
      from held(2) run have "r = Inr ()" "s' = later k s1"
        by (simp_all add: TIMEOUTS_MEDIUM_def)
      with held(1,3,4) show ?thesis
        by (intro exI [of _ k]) (simp add: pathnameExcludes_def URLs_DASHBOARD_def)
    next
      case timeout
      from timeout(1) run have "r = Inl TimeoutError" "s' = later 10000 s1"
        by (simp_all add: TIMEOUTS_MEDIUM_def)
      with timeout(2) show ?thesis
        by (intro exI [of _ 10000]) (simp add: pathnameExcludes_def URLs_DASHBOARD_def)
    qed
    then obtain k where "s' = later k s1" by blast
    then have same: "actionsOf s' = actionsOf s1" by simp
    from acts Inr same
    have "\<exists>acts. actionsOf s' = actionsOf s @ acts \<and>
       (if \<exists>j\<le>1000. visibleIn A (later j s) logoutButton
        then prefix acts [Click logoutButton] \<and> (r = Inr () \<longrightarrow> acts = [Click logoutButton])
        else prefix acts [Click profileDropdown, Click logoutButton] \<and>
          (r = Inr () \<longrightarrow> acts = [Click profileDropdown, Click logoutButton]))"
      by (auto split: if_splits)
    with c1 poll show ?thesis by blast
  qed
qed

theorem logout_contract_witness:
  "fst (logout (dashboardApp True) startPage) = Inr () \<and>
   \<not> stringIncludes (pathnameIn (dashboardApp True)
       (snd (logout (dashboardApp True) startPage))) ''/dashboard'' \<and>
   actionsOf (snd (logout (dashboardApp True) startPage)) = [Click logoutButton] \<and>
   fst (logout (dashboardApp False) startPage) = Inr () \<and>
   \<not> stringIncludes (pathnameIn (dashboardApp False)
       (snd (logout (dashboardApp False) startPage))) ''/dashboard'' \<and>
   actionsOf (snd (logout (dashboardApp False) startPage))
     = [Click profileDropdown, Click logoutButton]"
proof -
  let ?d = "logout (dashboardApp True) startPage"
  let ?o = "logout (dashboardApp False) startPage"
  have fresh: "actionsOf startPage = []"
    by (simp add: actionsOf_def startPage_def)
  have d: "?d = (Inr (), snd ?d)" by (simp add: logout_direct)
  have o: "?o = (Inr (), snd ?o)" by (simp add: logout_dropdown)
  have seen: "\<exists>j\<le>1000. visibleIn (dashboardApp True) (later j startPage) logoutButton"
    by (intro exI [of _ 0]) simp
  have unseen: "\<not> (\<exists>j\<le>1000. visibleIn (dashboardApp False) (later j startPage) logoutButton)"
    by simp
  from logout_contract [OF d] seen fresh
  have direct: "\<not> stringIncludes (pathnameIn (dashboardApp True) (snd ?d)) ''/dashboard'' \<and>
      actionsOf (snd ?d) = [Click logoutButton]"
    by (auto split: if_splits)
  from logout_contract [OF o] unseen fresh
  have opened: "\<not> stringIncludes (pathnameIn (dashboardApp False) (snd ?o)) ''/dashboard'' \<and>
      actionsOf (snd ?o) = [Click profileDropdown, Click logoutButton]"
    by (auto split: if_splits)
  from d o direct opened show ?thesis by (metis fst_conv)
qed


end
